theory Spec2Isabelle
  imports Complex_Main
begin

section \<open>Numbers\<close>

text \<open>
  Prices are Python floats. They are modelled as \<^typ>\<open>real\<close>: every statement below is
  about exact arithmetic, and says nothing about rounding, overflow, infinities or NaN.
  Python's unbounded \<open>int\<close> (the \<open>days\<close> argument, the result of \<open>round\<close>) is \<^typ>\<open>int\<close>.
\<close>

text \<open>\<open>np.mean(prices)\<close> on a non-empty list: the sum divided by the length.\<close>

definition mean :: "real list \<Rightarrow> real" where
  "mean xs = sum_list xs / real (length xs)"

text \<open>
  Python's one-argument \<open>round\<close> on a float: the nearest integer, a tie going to the even
  neighbour (\<open>round(2.5) == 2\<close>, \<open>round(3.5) == 4\<close>).
\<close>

definition py_round :: "real \<Rightarrow> int" where
  "py_round x =
     (let f = \<lfloor>x\<rfloor>; d = x - of_int f
      in if d < 1 / 2 then f
         else if 1 / 2 < d then f + 1
         else if even f then f else f + 1)"

text \<open>\<open>10 ** k\<close> for a Python int \<open>k\<close>: an int for \<open>k >= 0\<close>, a float below.\<close>

definition pow10 :: "int \<Rightarrow> real" where
  "pow10 k = (if 0 \<le> k then 10 ^ nat k else 1 / 10 ^ nat (- k))"

section \<open>Scale normalizer\<close>

text \<open>
  \<^verbatim>\<open>
  def _calculate_scale_factor(prices):
      if not prices:
          return 1.0
      avg_price = np.mean(prices)
      if avg_price >= 0.01:
          return 1.0
      target_price = 10.0
      scale_factor = target_price / avg_price if avg_price > 0 else 1.0
      scale_factor = 10 ** round(np.log10(scale_factor))
      return scale_factor
  \<close>
\<close>

definition calculate_scale_factor :: "real list \<Rightarrow> real" where
  "calculate_scale_factor prices =
     (if prices = [] then 1
      else
        let avg_price = mean prices in
        if avg_price \<ge> 1 / 100 then 1
        else
          let target_price = 10;
              scale_factor = (if avg_price > 0 then target_price / avg_price else 1)
          in pow10 (py_round (log 10 scale_factor)))"

text \<open>\<open>[p * scale_factor for p in prices]\<close> and \<open>[p / scale_factor for p in prices]\<close>.\<close>

definition scale_prices :: "real list \<Rightarrow> real \<Rightarrow> real list" where
  "scale_prices prices scale_factor = map (\<lambda>p. p * scale_factor) prices"

definition descale_prices :: "real list \<Rightarrow> real \<Rightarrow> real list" where
  "descale_prices prices scale_factor = map (\<lambda>p. p / scale_factor) prices"

section \<open>Errors and libraries\<close>

text \<open>
  An exception is a value: every function that can raise returns \<open>error + 'a\<close>, with
  \<open>Inl\<close> the exception. Every exception of the model is an instance of Python's
  \<open>Exception\<close>, which is what the handlers of \<open>generate_forecast\<close> catch.
  \<open>IndexError\<close> is raised by the repository's own indexing (\<open>prices[-1]\<close>,
  \<open>predictions[0]\<close>, \<open>predictions_list[i][day]\<close>), \<open>ZeroDivisionError\<close> by a float
  division, and \<open>LibraryError\<close> stands for anything a modelling library raises: a failed
  import, too little data, a fit that does not converge.
\<close>

datatype error = IndexError | ZeroDivisionError | LibraryError

text \<open>
  The modelling libraries (xgboost with pandas, prophet, pmdarima, tensorflow with
  scikit-learn) are not code of the repository. They are parameters of the model: a
  record of functions, each returning what the library call returns or the exception it
  raises, so that a theorem about all records is a theorem about every behaviour of the
  libraries, failures included. The types \<open>'f\<close>, \<open>'m\<close> and \<open>'n\<close> are a row of engineered
  features, a fitted tree model and a fitted network with its scaler.
  \<^item> \<open>xgb_fit prices\<close>: \<open>import xgboost\<close>, the feature table of \<open>prices\<close>, the training
    frame and \<open>model.fit(X, y)\<close>;
  \<^item> \<open>create_features ps\<close>: \<open>create_features(np.array(ps)).dropna()\<close> restricted to the
    feature columns, \<open>None\<close> when no row is left and otherwise its last row;
  \<^item> \<open>xgb_predict model row\<close>: \<open>float(model.predict(row)[0])\<close>;
  \<^item> \<open>prophet_predict prices days\<close>: everything of \<open>_prophet_forecast\<close> up to
    \<open>forecast.tail(days)['yhat'].tolist()\<close>;
  \<^item> \<open>arima_predict prices days\<close>: \<open>auto_arima(prices, ...).predict(n_periods=days).tolist()\<close>
    with its import;
  \<^item> \<open>lstm_fit prices\<close>: the imports, the \<open>MinMaxScaler\<close>, the training windows and
    \<open>model.fit\<close>; \<open>lstm_window prices\<close>: \<open>scaled_data[-lookback:].flatten()\<close>;
  \<^item> \<open>lstm_predict model seq\<close>: \<open>model.predict(seq.reshape((1, lookback, 1)))[0, 0]\<close>;
  \<^item> \<open>inverse_transform model\<close>: what \<open>scaler.inverse_transform\<close> does to one entry of
    its single column.
\<close>

record ('f, 'm, 'n) libs =
  xgb_fit :: "real list \<Rightarrow> error + 'm"
  create_features :: "real list \<Rightarrow> error + 'f option"
  xgb_predict :: "'m \<Rightarrow> 'f \<Rightarrow> error + real"
  prophet_predict :: "real list \<Rightarrow> int \<Rightarrow> error + real list"
  arima_predict :: "real list \<Rightarrow> int \<Rightarrow> error + real list"
  lstm_fit :: "real list \<Rightarrow> error + 'n"
  lstm_window :: "real list \<Rightarrow> real list"
  lstm_predict :: "'n \<Rightarrow> real list \<Rightarrow> error + real"
  inverse_transform :: "'n \<Rightarrow> real \<Rightarrow> real"

section \<open>Forecast anchoring\<close>

text \<open>
  The same four lines close every model-based forecaster:
  \<^verbatim>\<open>
  current_price = prices[-1]
  predicted_start = predictions[0]
  offset = current_price - predicted_start
  predictions = [p + offset for p in predictions]
  \<close>
  Both indexings raise \<open>IndexError\<close> on an empty list, \<open>prices[-1]\<close> first.
\<close>

definition anchor :: "real list \<Rightarrow> real list \<Rightarrow> error + real list" where
  "anchor prices predictions =
     (if prices = [] then Inl IndexError
      else if predictions = [] then Inl IndexError
      else
        let current_price = last prices;
            predicted_start = hd predictions;
            offset = current_price - predicted_start
        in Inr (map (\<lambda>p. p + offset) predictions))"

section \<open>Trend fallback\<close>

text \<open>
  \<open>np.polyfit(x, y, 1, w=weights)[0]\<close> with \<open>x = np.arange(n)\<close> and
  \<open>weights = np.exp(np.linspace(0, 1, n))\<close>: the slope of the line that minimises
  the sum of the squared weighted residuals \<open>(weights[i] * (y[i] - (a * i + b)))\<^sup>2\<close>,
  in the closed form of the normal equations. \<open>np.linspace(0, 1, n)[i]\<close> is
  \<open>i / (n - 1)\<close>.
\<close>

definition polyfit_slope :: "real list \<Rightarrow> real" where
  "polyfit_slope ys =
     (let n = length ys;
          w = (\<lambda>i. (exp (real i / real (n - 1)))\<^sup>2);
          s = (\<Sum>i<n. w i);
          sx = (\<Sum>i<n. w i * real i);
          sy = (\<Sum>i<n. w i * ys ! i);
          sxx = (\<Sum>i<n. w i * (real i)\<^sup>2);
          sxy = (\<Sum>i<n. w i * real i * ys ! i)
      in (s * sxy - sx * sy) / (s * sxx - sx\<^sup>2))"

text \<open>
  The loop of \<open>_simple_fallback\<close>, \<open>k\<close> iterations from iteration \<open>i\<close> on:
  \<^verbatim>\<open>
  for i in range(days):
      trend_change = slope * (1 - 0.05 * i)
      next_price = last_price + trend_change
      next_price = max(next_price, current_price * 0.8)
      next_price = min(next_price, current_price * 1.2)
      forecast.append(next_price)
      last_price = next_price
  \<close>
\<close>

fun fallback_loop :: "real \<Rightarrow> real \<Rightarrow> real \<Rightarrow> nat \<Rightarrow> nat \<Rightarrow> real list" where
  "fallback_loop slope current_price last_price i 0 = []"
| "fallback_loop slope current_price last_price i (Suc k) =
     (let trend_change = slope * (1 - 5 / 100 * real i);
          next_price = last_price + trend_change;
          next_price = max next_price (current_price * (8 / 10));
          next_price = min next_price (current_price * (12 / 10))
      in next_price # fallback_loop slope current_price next_price (Suc i) k)"

text \<open>
  \<^verbatim>\<open>
  def _simple_fallback(prices, days):
      if len(prices) < 2:
          return [prices[-1]] * days
      current_price = prices[-1]
      window = min(14, len(prices))
      recent_prices = prices[-window:]
      x = np.arange(len(recent_prices))
      weights = np.exp(np.linspace(0, 1, len(recent_prices)))
      coefficients = np.polyfit(x, recent_prices, 1, w=weights)
      slope = coefficients[0] * 0.6  # Dampen
      ... the loop ...
      return forecast
  \<close>
  \<open>prices[-1]\<close> raises \<open>IndexError\<close> on the empty list; \<open>[v] * days\<close> and
  \<open>range(days)\<close> are empty for \<open>days <= 0\<close>.
\<close>

definition simple_fallback :: "real list \<Rightarrow> int \<Rightarrow> error + real list" where
  "simple_fallback prices days =
     (if length prices < 2 then
        (if prices = [] then Inl IndexError else Inr (replicate (nat days) (last prices)))
      else
        let current_price = last prices;
            window = min 14 (length prices);
            recent_prices = drop (length prices - window) prices;
            slope = polyfit_slope recent_prices * (6 / 10)
        in Inr (fallback_loop slope current_price current_price 0 (nat days)))"

section \<open>Tree-based forecaster\<close>

text \<open>
  The iterative prediction of \<open>_xgboost_forecast\<close>, \<open>k\<close> iterations to go:
  \<^verbatim>\<open>
  for _ in range(days):
      temp_df = create_features(np.array(current_prices))
      temp_df = temp_df.dropna()
      if len(temp_df) == 0:
          predictions.append(current_prices[-1])
          continue
      last_features = temp_df[feature_cols].iloc[-1:].values
      next_pred = float(model.predict(last_features)[0])
      predictions.append(next_pred)
      current_prices.append(next_pred)
  \<close>
\<close>

fun xgb_loop ::
  "('f, 'm, 'n) libs \<Rightarrow> 'm \<Rightarrow> nat \<Rightarrow> real list \<Rightarrow> real list \<Rightarrow> error + real list" where
  "xgb_loop L model 0 current_prices predictions = Inr predictions"
| "xgb_loop L model (Suc k) current_prices predictions =
     (case create_features L current_prices of
        Inl e \<Rightarrow> Inl e
      | Inr None \<Rightarrow>
          if current_prices = [] then Inl IndexError
          else xgb_loop L model k current_prices (predictions @ [last current_prices])
      | Inr (Some last_features) \<Rightarrow>
          (case xgb_predict L model last_features of
             Inl e \<Rightarrow> Inl e
           | Inr next_pred \<Rightarrow>
               xgb_loop L model k (current_prices @ [next_pred]) (predictions @ [next_pred])))"

definition xgboost_forecast :: "('f, 'm, 'n) libs \<Rightarrow> real list \<Rightarrow> int \<Rightarrow> error + real list" where
  "xgboost_forecast L prices days =
     (case xgb_fit L prices of
        Inl e \<Rightarrow> Inl e
      | Inr model \<Rightarrow>
          (case xgb_loop L model (nat days) prices [] of
             Inl e \<Rightarrow> Inl e
           | Inr predictions \<Rightarrow> anchor prices predictions))"

section \<open>Statistical forecaster\<close>

definition prophet_forecast :: "('f, 'm, 'n) libs \<Rightarrow> real list \<Rightarrow> int \<Rightarrow> error + real list" where
  "prophet_forecast L prices days =
     (case prophet_predict L prices days of
        Inl e \<Rightarrow> Inl e
      | Inr predictions \<Rightarrow> anchor prices predictions)"

section \<open>Sequence-model forecaster\<close>

text \<open>
  \<^verbatim>\<open>
  for _ in range(days):
      input_seq = current_sequence.reshape((1, lookback, 1))
      next_pred = model.predict(input_seq, verbose=0)[0, 0]
      predictions.append(next_pred)
      current_sequence = np.append(current_sequence[1:], next_pred)
  \<close>
\<close>

fun lstm_loop ::
  "('f, 'm, 'n) libs \<Rightarrow> 'n \<Rightarrow> nat \<Rightarrow> real list \<Rightarrow> real list \<Rightarrow> error + real list" where
  "lstm_loop L model 0 current_sequence predictions = Inr predictions"
| "lstm_loop L model (Suc k) current_sequence predictions =
     (case lstm_predict L model current_sequence of
        Inl e \<Rightarrow> Inl e
      | Inr next_pred \<Rightarrow>
          lstm_loop L model k (drop 1 current_sequence @ [next_pred]) (predictions @ [next_pred]))"

text \<open>
  After the loop the predictions go through \<open>scaler.inverse_transform\<close>, entry by entry,
  and are anchored.
\<close>

definition lstm_forecast :: "('f, 'm, 'n) libs \<Rightarrow> real list \<Rightarrow> int \<Rightarrow> error + real list" where
  "lstm_forecast L prices days =
     (case lstm_fit L prices of
        Inl e \<Rightarrow> Inl e
      | Inr model \<Rightarrow>
          (case lstm_loop L model (nat days) (lstm_window L prices) [] of
             Inl e \<Rightarrow> Inl e
           | Inr predictions \<Rightarrow> anchor prices (map (inverse_transform L model) predictions)))"

section \<open>Ensemble combiner\<close>

text \<open>
  One entry of the weighted average:
  \<open>sum(predictions_list[i][day] * weights[i] for i in range(len(predictions_list)))\<close>.
  A member shorter than \<open>day + 1\<close> raises \<open>IndexError\<close>.
\<close>

definition day_pred :: "real list list \<Rightarrow> real list \<Rightarrow> nat \<Rightarrow> error + real" where
  "day_pred predictions_list weights day =
     (if list_all (\<lambda>p. day < length p) predictions_list
      then Inr (sum_list (map (\<lambda>(p, w). p ! day * w) (zip predictions_list weights)))
      else Inl IndexError)"

text \<open>\<open>for day in range(days): ensemble.append(day_pred)\<close>, \<open>k\<close> iterations from \<open>day\<close> on.\<close>

fun ensemble_loop :: "real list list \<Rightarrow> real list \<Rightarrow> nat \<Rightarrow> nat \<Rightarrow> error + real list" where
  "ensemble_loop predictions_list weights day 0 = Inr []"
| "ensemble_loop predictions_list weights day (Suc k) =
     (case day_pred predictions_list weights day of
        Inl e \<Rightarrow> Inl e
      | Inr v \<Rightarrow>
          (case ensemble_loop predictions_list weights (Suc day) k of
             Inl e \<Rightarrow> Inl e
           | Inr vs \<Rightarrow> Inr (v # vs)))"

text \<open>
  A member that raises is skipped (\<open>except: pass\<close>); one that returns is appended to
  \<open>predictions_list\<close> with its weight.
\<close>

definition add_member ::
  "error + real list \<Rightarrow> real \<Rightarrow> real list list \<times> real list \<Rightarrow> real list list \<times> real list" where
  "add_member r weight acc =
     (case r of
        Inl e \<Rightarrow> acc
      | Inr pred \<Rightarrow> (fst acc @ [pred], snd acc @ [weight]))"

text \<open>
  \<^verbatim>\<open>
  if not predictions_list:
      return [prices[-1]] * days
  total_weight = sum(weights[:len(predictions_list)])
  weights = [w / total_weight for w in weights[:len(predictions_list)]]
  ... the loop, the anchoring ...
  return ensemble
  \<close>
\<close>

definition ensemble_forecast :: "('f, 'm, 'n) libs \<Rightarrow> real list \<Rightarrow> int \<Rightarrow> error + real list" where
  "ensemble_forecast L prices days =
     (let acc = add_member (prophet_forecast L prices days) (4 / 10) ([], []);
          acc = add_member (arima_predict L prices days) (35 / 100) acc;
          acc = add_member (simple_fallback prices days) (25 / 100) acc;
          predictions_list = fst acc;
          weights = snd acc
      in if predictions_list = [] then
           (if prices = [] then Inl IndexError else Inr (replicate (nat days) (last prices)))
         else
           let total_weight = sum_list (take (length predictions_list) weights) in
           if total_weight = 0 then Inl ZeroDivisionError
           else
             let weights = map (\<lambda>w. w / total_weight) (take (length predictions_list) weights) in
             case ensemble_loop predictions_list weights 0 (nat days) of
               Inl e \<Rightarrow> Inl e
             | Inr ensemble \<Rightarrow> anchor prices ensemble)"

section \<open>Forecast orchestrator\<close>

text \<open>\<open>_descale_prices(forecast, scale_factor) if scale_factor > 1 else forecast\<close>.\<close>

definition descale_if :: "real \<Rightarrow> real list \<Rightarrow> real list" where
  "descale_if scale_factor forecast =
     (if scale_factor > 1 then descale_prices forecast scale_factor else forecast)"

text \<open>
  \<^verbatim>\<open>
  def generate_forecast(prices, days=7):
      if not prices:
          return []
      if len(prices) < 30:
          return _simple_fallback(prices, days)
      scale_factor = _calculate_scale_factor(prices)
      if scale_factor > 1:
          scaled_prices = _scale_prices(prices, scale_factor)
      else:
          scaled_prices = prices
      try:
          forecast = _xgboost_forecast(scaled_prices, days)
          return _descale_prices(forecast, scale_factor) if scale_factor > 1 else forecast
      except Exception as e: ...
      try:
          forecast = _ensemble_forecast(scaled_prices, days)
          return ...
      except Exception as e: ...
      try:
          forecast = _lstm_forecast(scaled_prices, days)
          return ...
      except Exception as e:
          forecast = _simple_fallback(scaled_prices, days)
          return ...
  \<close>
  The \<open>print\<close> calls write to the log only and are left out. The last call of
  \<open>_simple_fallback\<close> stands in a handler, with nothing around it: what it raises leaves
  \<open>generate_forecast\<close>.
\<close>

definition generate_forecast :: "('f, 'm, 'n) libs \<Rightarrow> real list \<Rightarrow> int \<Rightarrow> error + real list" where
  "generate_forecast L prices days =
     (if prices = [] then Inr []
      else if length prices < 30 then simple_fallback prices days
      else
        let scale_factor = calculate_scale_factor prices;
            scaled_prices = (if scale_factor > 1 then scale_prices prices scale_factor else prices)
        in case xgboost_forecast L scaled_prices days of
             Inr forecast \<Rightarrow> Inr (descale_if scale_factor forecast)
           | Inl e \<Rightarrow>
               (case ensemble_forecast L scaled_prices days of
                  Inr forecast \<Rightarrow> Inr (descale_if scale_factor forecast)
                | Inl e \<Rightarrow>
                    (case lstm_forecast L scaled_prices days of
                       Inr forecast \<Rightarrow> Inr (descale_if scale_factor forecast)
                     | Inl e \<Rightarrow>
                         (case simple_fallback scaled_prices days of
                            Inl e \<Rightarrow> Inl e
                          | Inr forecast \<Rightarrow> Inr (descale_if scale_factor forecast)))))"

text \<open>
  Two library environments for concrete runs. In \<open>no_libs\<close> none of the optional
  libraries is installed: every import raises. In \<open>flat_libs\<close> every library is there and
  every model predicts the constant \<open>5\<close>.
\<close>

definition no_libs :: "(unit, unit, unit) libs" where
  "no_libs =
     \<lparr>xgb_fit = (\<lambda>prices. Inl LibraryError),
      create_features = (\<lambda>ps. Inl LibraryError),
      xgb_predict = (\<lambda>model row. Inl LibraryError),
      prophet_predict = (\<lambda>prices days. Inl LibraryError),
      arima_predict = (\<lambda>prices days. Inl LibraryError),
      lstm_fit = (\<lambda>prices. Inl LibraryError),
      lstm_window = (\<lambda>prices. []),
      lstm_predict = (\<lambda>model seq. Inl LibraryError),
      inverse_transform = (\<lambda>model y. y)\<rparr>"

definition flat_libs :: "(unit, unit, unit) libs" where
  "flat_libs =
     \<lparr>xgb_fit = (\<lambda>prices. Inr ()),
      create_features = (\<lambda>ps. Inr (Some ())),
      xgb_predict = (\<lambda>model row. Inr 5),
      prophet_predict = (\<lambda>prices days. Inr (replicate (nat days) 5)),
      arima_predict = (\<lambda>prices days. Inr (replicate (nat days) 5)),
      lstm_fit = (\<lambda>prices. Inr ()),
      lstm_window = (\<lambda>prices. drop (length prices - 30) prices),
      lstm_predict = (\<lambda>model seq. Inr 5),
      inverse_transform = (\<lambda>model y. y)\<rparr>"

section \<open>The forecasters on a store of list objects\<close>

text \<open>
  A Python list is an object: two names can denote the same list (\<open>scaled_prices = prices\<close>
  when no scaling is needed), and \<open>append\<close> changes the list for every name that denotes
  it. To state what a call does to the caller's list, the forecasters are modelled a second
  time over a store: a list of objects, an address being a position in it. A list of
  floats and a list of lists (\<open>predictions_list\<close>) are the two kinds of object. A list
  display, a comprehension, a slice, \<open>list(...)\<close>, \<open>[v] * days\<close> and \<open>tolist()\<close> each
  make a new object at the end of the store; \<open>append\<close> updates the object at its address.
  The libraries get the value of a list and do not change the list they are given.
\<close>

type_synonym addr = nat

datatype obj = Floats "real list" | Refs "addr list"

type_synonym heap = "obj list"

text \<open>
  A program takes the store and returns a result or an exception, and the store it leaves.
  \<open>bind\<close> is sequencing (an exception ends the sequence), \<open>catch\<close> is \<open>try ... except\<close>.
\<close>

type_synonym 'a prog = "heap \<Rightarrow> (error + 'a) \<times> heap"

definition floats :: "heap \<Rightarrow> addr \<Rightarrow> real list" where
  "floats h a = (if a < length h then (case h ! a of Floats xs \<Rightarrow> xs | Refs rs \<Rightarrow> []) else [])"

definition refs :: "heap \<Rightarrow> addr \<Rightarrow> addr list" where
  "refs h a = (if a < length h then (case h ! a of Floats xs \<Rightarrow> [] | Refs rs \<Rightarrow> rs) else [])"

definition ret :: "'a \<Rightarrow> 'a prog" where
  "ret x h = (Inr x, h)"

definition raise :: "error \<Rightarrow> 'a prog" where
  "raise e h = (Inl e, h)"

definition bind :: "'a prog \<Rightarrow> ('a \<Rightarrow> 'b prog) \<Rightarrow> 'b prog" where
  "bind m f h = (case m h of (Inl e, h') \<Rightarrow> (Inl e, h') | (Inr x, h') \<Rightarrow> f x h')"

definition catch :: "'a prog \<Rightarrow> (error \<Rightarrow> 'a prog) \<Rightarrow> 'a prog" where
  "catch m g h = (case m h of (Inl e, h') \<Rightarrow> g e h' | (Inr x, h') \<Rightarrow> (Inr x, h'))"

text \<open>
  Reading a list, making a new list object, and \<open>append\<close>.
\<close>

definition get_floats :: "addr \<Rightarrow> real list prog" where
  "get_floats a h = (Inr (floats h a), h)"

definition get_refs :: "addr \<Rightarrow> addr list prog" where
  "get_refs a h = (Inr (refs h a), h)"

definition get_members :: "addr list \<Rightarrow> real list list prog" where
  "get_members rs h = (Inr (map (floats h) rs), h)"

definition new_list :: "real list \<Rightarrow> addr prog" where
  "new_list xs h = (Inr (length h), h @ [Floats xs])"

definition new_ref_list :: "addr list \<Rightarrow> addr prog" where
  "new_ref_list rs h = (Inr (length h), h @ [Refs rs])"

definition append_float :: "addr \<Rightarrow> real \<Rightarrow> unit prog" where
  "append_float a x h = (Inr (), h[a := Floats (floats h a @ [x])])"

definition append_ref :: "addr \<Rightarrow> addr \<Rightarrow> unit prog" where
  "append_ref a r h = (Inr (), h[a := Refs (refs h a @ [r])])"

text \<open>
  The trend fallback: \<open>forecast = []\<close> is a new object, and the loop appends to it.
  \<open>recent_prices = prices[-window:]\<close> is a new object too.
\<close>

fun fallback_loop_h :: "real \<Rightarrow> real \<Rightarrow> real \<Rightarrow> nat \<Rightarrow> nat \<Rightarrow> addr \<Rightarrow> unit prog" where
  "fallback_loop_h slope current_price last_price i 0 forecast = ret ()"
| "fallback_loop_h slope current_price last_price i (Suc k) forecast =
     (let trend_change = slope * (1 - 5 / 100 * real i);
          next_price = last_price + trend_change;
          next_price = max next_price (current_price * (8 / 10));
          next_price = min next_price (current_price * (12 / 10))
      in bind (append_float forecast next_price)
           (\<lambda>_. fallback_loop_h slope current_price next_price (Suc i) k forecast))"

definition simple_fallback_h :: "addr \<Rightarrow> int \<Rightarrow> addr prog" where
  "simple_fallback_h prices days =
     bind (get_floats prices) (\<lambda>ps.
       if length ps < 2 then
         (if ps = [] then raise IndexError else new_list (replicate (nat days) (last ps)))
       else
         let current_price = last ps;
             window = min 14 (length ps)
         in bind (new_list (drop (length ps - window) ps)) (\<lambda>recent_prices.
            bind (get_floats recent_prices) (\<lambda>rs.
              let slope = polyfit_slope rs * (6 / 10)
              in bind (new_list []) (\<lambda>forecast.
                 bind (fallback_loop_h slope current_price current_price 0 (nat days) forecast)
                   (\<lambda>_. ret forecast)))))"

text \<open>
  The anchoring lines: they read both lists and build a new one.
\<close>

definition anchor_h :: "addr \<Rightarrow> addr \<Rightarrow> addr prog" where
  "anchor_h prices predictions =
     bind (get_floats prices) (\<lambda>ps.
       if ps = [] then raise IndexError
       else bind (get_floats predictions) (\<lambda>qs.
         if qs = [] then raise IndexError
         else
           let current_price = last ps;
               predicted_start = hd qs;
               offset = current_price - predicted_start
           in new_list (map (\<lambda>p. p + offset) qs)))"

text \<open>
  The tree-based forecaster: \<open>predictions = []\<close> and \<open>current_prices = list(prices)\<close> are
  new objects; the loop appends to both.
\<close>

fun xgb_loop_h :: "('f, 'm, 'n) libs \<Rightarrow> 'm \<Rightarrow> nat \<Rightarrow> addr \<Rightarrow> addr \<Rightarrow> unit prog" where
  "xgb_loop_h L model 0 current_prices predictions = ret ()"
| "xgb_loop_h L model (Suc k) current_prices predictions =
     bind (get_floats current_prices) (\<lambda>cs.
       case create_features L cs of
         Inl e \<Rightarrow> raise e
       | Inr None \<Rightarrow>
           if cs = [] then raise IndexError
           else bind (append_float predictions (last cs))
                  (\<lambda>_. xgb_loop_h L model k current_prices predictions)
       | Inr (Some last_features) \<Rightarrow>
           (case xgb_predict L model last_features of
              Inl e \<Rightarrow> raise e
            | Inr next_pred \<Rightarrow>
                bind (append_float predictions next_pred) (\<lambda>_.
                bind (append_float current_prices next_pred) (\<lambda>_.
                  xgb_loop_h L model k current_prices predictions))))"

definition xgboost_forecast_h :: "('f, 'm, 'n) libs \<Rightarrow> addr \<Rightarrow> int \<Rightarrow> addr prog" where
  "xgboost_forecast_h L prices days =
     bind (get_floats prices) (\<lambda>ps.
       case xgb_fit L ps of
         Inl e \<Rightarrow> raise e
       | Inr model \<Rightarrow>
           bind (new_list []) (\<lambda>predictions.
           bind (new_list ps) (\<lambda>current_prices.
           bind (xgb_loop_h L model (nat days) current_prices predictions) (\<lambda>_.
             anchor_h prices predictions))))"

text \<open>
  The statistical forecaster (\<open>tolist()\<close> makes the list) and the sequence model, whose
  \<open>current_sequence\<close> is a numpy array, replaced by a new array in every iteration.
\<close>

definition prophet_forecast_h :: "('f, 'm, 'n) libs \<Rightarrow> addr \<Rightarrow> int \<Rightarrow> addr prog" where
  "prophet_forecast_h L prices days =
     bind (get_floats prices) (\<lambda>ps.
       case prophet_predict L ps days of
         Inl e \<Rightarrow> raise e
       | Inr preds \<Rightarrow> bind (new_list preds) (\<lambda>predictions. anchor_h prices predictions))"

fun lstm_loop_h :: "('f, 'm, 'n) libs \<Rightarrow> 'n \<Rightarrow> nat \<Rightarrow> real list \<Rightarrow> addr \<Rightarrow> unit prog" where
  "lstm_loop_h L model 0 current_sequence predictions = ret ()"
| "lstm_loop_h L model (Suc k) current_sequence predictions =
     (case lstm_predict L model current_sequence of
        Inl e \<Rightarrow> raise e
      | Inr next_pred \<Rightarrow>
          bind (append_float predictions next_pred) (\<lambda>_.
            lstm_loop_h L model k (drop 1 current_sequence @ [next_pred]) predictions))"

definition lstm_forecast_h :: "('f, 'm, 'n) libs \<Rightarrow> addr \<Rightarrow> int \<Rightarrow> addr prog" where
  "lstm_forecast_h L prices days =
     bind (get_floats prices) (\<lambda>ps.
       case lstm_fit L ps of
         Inl e \<Rightarrow> raise e
       | Inr model \<Rightarrow>
           bind (new_list []) (\<lambda>predictions.
           bind (lstm_loop_h L model (nat days) (lstm_window L ps) predictions) (\<lambda>_.
           bind (get_floats predictions) (\<lambda>qs.
           bind (new_list (map (inverse_transform L model) qs)) (\<lambda>predictions.
             anchor_h prices predictions)))))"

text \<open>
  The ensemble: \<open>predictions_list = []\<close> and \<open>weights = []\<close> are new objects; a member
  that returns is appended to the first and its weight to the second.
  \<^verbatim>\<open>
  try:
      prophet_pred = _prophet_forecast(prices, days)
      predictions_list.append(prophet_pred)
      weights.append(0.4)
  except:
      pass
  \<close>
\<close>

definition try_member :: "addr prog \<Rightarrow> real \<Rightarrow> addr \<Rightarrow> addr \<Rightarrow> unit prog" where
  "try_member member weight predictions_list weights =
     catch
       (bind member (\<lambda>pred.
        bind (append_ref predictions_list pred) (\<lambda>_.
          append_float weights weight)))
       (\<lambda>e. ret ())"

definition arima_forecast_h :: "('f, 'm, 'n) libs \<Rightarrow> addr \<Rightarrow> int \<Rightarrow> addr prog" where
  "arima_forecast_h L prices days =
     bind (get_floats prices) (\<lambda>ps.
       case arima_predict L ps days of
         Inl e \<Rightarrow> raise e
       | Inr preds \<Rightarrow> new_list preds)"

fun ensemble_loop_h :: "addr \<Rightarrow> addr \<Rightarrow> nat \<Rightarrow> nat \<Rightarrow> addr \<Rightarrow> unit prog" where
  "ensemble_loop_h predictions_list weights day 0 ensemble = ret ()"
| "ensemble_loop_h predictions_list weights day (Suc k) ensemble =
     bind (get_refs predictions_list) (\<lambda>rs.
     bind (get_members rs) (\<lambda>members.
     bind (get_floats weights) (\<lambda>ws.
       case day_pred members ws day of
         Inl e \<Rightarrow> raise e
       | Inr v \<Rightarrow>
           bind (append_float ensemble v) (\<lambda>_.
             ensemble_loop_h predictions_list weights (Suc day) k ensemble))))"

definition ensemble_forecast_h :: "('f, 'm, 'n) libs \<Rightarrow> addr \<Rightarrow> int \<Rightarrow> addr prog" where
  "ensemble_forecast_h L prices days =
     bind (new_ref_list []) (\<lambda>predictions_list.
     bind (new_list []) (\<lambda>weights.
     bind (try_member (prophet_forecast_h L prices days) (4 / 10) predictions_list weights) (\<lambda>_.
     bind (try_member (arima_forecast_h L prices days) (35 / 100) predictions_list weights) (\<lambda>_.
     bind (try_member (simple_fallback_h prices days) (25 / 100) predictions_list weights) (\<lambda>_.
     bind (get_refs predictions_list) (\<lambda>rs.
       if rs = [] then
         bind (get_floats prices) (\<lambda>ps.
           if ps = [] then raise IndexError else new_list (replicate (nat days) (last ps)))
       else
         bind (get_floats weights) (\<lambda>ws.
           let total_weight = sum_list (take (length rs) ws) in
           if total_weight = 0 then raise ZeroDivisionError
           else
             bind (new_list (map (\<lambda>w. w / total_weight) (take (length rs) ws))) (\<lambda>weights.
             bind (new_list []) (\<lambda>ensemble.
             bind (ensemble_loop_h predictions_list weights 0 (nat days) ensemble) (\<lambda>_.
               anchor_h prices ensemble))))))))))"

text \<open>
  The orchestrator: \<open>scaled_prices\<close> is a new list when the scale factor is above \<open>1\<close>
  and the caller's own list otherwise.
\<close>

definition scale_prices_h :: "addr \<Rightarrow> real \<Rightarrow> addr prog" where
  "scale_prices_h prices scale_factor =
     bind (get_floats prices) (\<lambda>ps. new_list (scale_prices ps scale_factor))"

definition descale_prices_h :: "addr \<Rightarrow> real \<Rightarrow> addr prog" where
  "descale_prices_h prices scale_factor =
     bind (get_floats prices) (\<lambda>ps. new_list (descale_prices ps scale_factor))"

definition descale_if_h :: "real \<Rightarrow> addr \<Rightarrow> addr prog" where
  "descale_if_h scale_factor forecast =
     (if scale_factor > 1 then descale_prices_h forecast scale_factor else ret forecast)"

definition generate_forecast_h :: "('f, 'm, 'n) libs \<Rightarrow> addr \<Rightarrow> int \<Rightarrow> addr prog" where
  "generate_forecast_h L prices days =
     bind (get_floats prices) (\<lambda>ps.
       if ps = [] then new_list []
       else if length ps < 30 then simple_fallback_h prices days
       else
         let scale_factor = calculate_scale_factor ps in
         bind (if scale_factor > 1 then scale_prices_h prices scale_factor else ret prices)
           (\<lambda>scaled_prices.
             catch (bind (xgboost_forecast_h L scaled_prices days) (descale_if_h scale_factor))
               (\<lambda>e. catch (bind (ensemble_forecast_h L scaled_prices days) (descale_if_h scale_factor))
                 (\<lambda>e. catch (bind (lstm_forecast_h L scaled_prices days) (descale_if_h scale_factor))
                   (\<lambda>e. bind (simple_fallback_h scaled_prices days) (descale_if_h scale_factor))))))"

text \<open>
  What a call may leave behind, for a call started in the store \<open>h\<close> that ends with
  \<open>out\<close>: every object of \<open>h\<close> is as it was, an exception is the exception of the
  function on values, and a returned address denotes a new object that holds the list
  the function on values returns.
\<close>

definition agrees :: "heap \<Rightarrow> (error + addr) \<times> heap \<Rightarrow> (error + real list) \<Rightarrow> bool" where
  "agrees h out pure =
     (case out of (r, h') \<Rightarrow>
        take (length h) h' = h \<and>
        (case r of
           Inl e \<Rightarrow> pure = Inl e
         | Inr a \<Rightarrow> length h \<le> a \<and> a < length h' \<and> pure = Inr (floats h' a)))"

text \<open>
  The state of the ensemble between two members, in a call started in \<open>h0\<close>:
  \<open>predictions_list\<close> and \<open>weights\<close> are the first two objects after \<open>h0\<close>, the members
  are newer objects, and their values and weights are what \<open>add_member\<close> has collected.
\<close>

definition ens_inv :: "heap \<Rightarrow> heap \<Rightarrow> real list list \<times> real list \<Rightarrow> bool" where
  "ens_inv h0 h acc \<longleftrightarrow>
     take (length h0) h = h0 \<and> Suc (Suc (length h0)) \<le> length h \<and>
     (\<exists>rs ws. h ! length h0 = Refs rs \<and> h ! Suc (length h0) = Floats ws \<and>
        (\<forall>r\<in>set rs. Suc (length h0) < r \<and> r < length h) \<and>
        acc = (map (floats h) rs, ws))"

section \<open>Properties of the scale normalizer\<close>

lemma py_round_lower: "x - 1 / 2 \<le> of_int (py_round x)"
  unfolding py_round_def Let_def by (auto; linarith)

lemma py_round_upper: "of_int (py_round x) \<le> x + 1 / 2"
  unfolding py_round_def Let_def by (auto; linarith)

lemma py_round_unique:
  assumes "\<bar>x - of_int k\<bar> < 1 / 2"
  shows "py_round x = k"
proof -
  have "x - 1 / 2 \<le> of_int (py_round x)" by (rule py_round_lower)
  moreover have "of_int (py_round x) \<le> x + 1 / 2" by (rule py_round_upper)
  ultimately have "\<bar>real_of_int (py_round x) - of_int k\<bar> < 1" using assms by linarith
  then have "\<bar>real_of_int (py_round x - k)\<bar> < 1" by simp
  then have "\<bar>py_round x - k\<bar> < 1" by linarith
  then show ?thesis by simp
qed

text \<open>
  Rounding a decimal logarithm without computing it: \<open>round(log10(y)) = k\<close> once
  \<open>y\<^sup>2\<close> lies strictly between \<open>10^(2k-1)\<close> and \<open>10^(2k+1)\<close>.
\<close>

lemma py_round_log10:
  assumes pos: "0 < y" and lo: "10 ^ (2 * k - 1) < y\<^sup>2" and hi: "y\<^sup>2 < 10 ^ (2 * k + 1)"
    and k: "0 < k"
  shows "py_round (log 10 y) = int k"
proof (rule py_round_unique)
  have sq: "log 10 (y\<^sup>2) = 2 * log 10 y"
    using log_nat_power [of y 10 2] pos by simp
  have "log 10 (10 ^ (2 * k - 1)) < log 10 (y\<^sup>2)"
    using lo pos by (subst log_less_cancel_iff) simp_all
  moreover have "log 10 ((10::real) ^ (2 * k - 1)) = real (2 * k - 1)"
    using log_nat_power [of 10 10 "2 * k - 1"] by simp
  ultimately have a: "real (2 * k - 1) < 2 * log 10 y" using sq by simp
  have "log 10 (y\<^sup>2) < log 10 (10 ^ (2 * k + 1))"
    using hi pos by (subst log_less_cancel_iff) simp_all
  moreover have "log 10 ((10::real) ^ (2 * k + 1)) = real (2 * k + 1)"
    using log_nat_power [of 10 10 "2 * k + 1"] by simp
  ultimately have b: "2 * log 10 y < real (2 * k + 1)" using sq by simp
  have "real (2 * k - 1) = 2 * real k - 1" using k by simp
  with a b have "real k - 1 / 2 < log 10 y" "log 10 y < real k + 1 / 2" by linarith+
  then show "\<bar>log 10 y - real_of_int (int k)\<bar> < 1 / 2"
    unfolding of_int_of_nat_eq by linarith
qed

lemma pow10_powr: "pow10 k = 10 powr (of_int k)"
  by (simp add: pow10_def powr_int)

lemma pow10_pos: "0 < pow10 k"
  by (simp add: pow10_def)

lemma mean_scale_prices: "mean (scale_prices xs f) = mean xs * f"
  by (simp add: mean_def scale_prices_def sum_list_mult_const)

lemma mean_replicate: "mean (replicate (Suc n) c) = c"
  by (simp add: mean_def sum_list_replicate field_simps)

lemma calculate_scale_factor_low:
  assumes "prices \<noteq> []" and "0 < mean prices" and "mean prices < 1 / 100"
  shows "calculate_scale_factor prices = pow10 (py_round (log 10 (10 / mean prices)))"
  using assms by (simp add: calculate_scale_factor_def Let_def)

lemma log10_scale_gt_3:
  assumes pos: "0 < m" and low: "m < 1 / 100"
  shows "3 < log 10 (10 / m)"
proof -
  have "(1000::real) < 10 / m" using pos low by (simp add: field_simps)
  then have "log 10 1000 < log 10 (10 / m)" using pos by simp
  moreover have "log 10 1000 = 3"
  proof -
    have "log 10 ((10::real) ^ 3) = real 3 * log 10 10" by (rule log_nat_power) simp
    then show ?thesis by simp
  qed
  ultimately show ?thesis by simp
qed

lemma scaled_mean_bounds:
  assumes pos: "0 < m"
  shows "1 \<le> m * pow10 (py_round (log 10 (10 / m)))"
    and "m * pow10 (py_round (log 10 (10 / m))) < 100"
proof -
  let ?L = "log 10 (10 / m)"
  let ?k = "py_round ?L"
  have L: "?L = 1 - log 10 m" using pos by (simp add: log_divide)
  have m: "m = 10 powr (log 10 m)" using pos by simp
  have eq: "m * pow10 ?k = 10 powr (log 10 m + of_int ?k)"
    unfolding pow10_powr powr_add using m by simp
  have lo: "0 \<le> log 10 m + of_int ?k" using py_round_lower [of ?L] L by linarith
  have hi: "log 10 m + of_int ?k < 2" using py_round_upper [of ?L] L by linarith
  have "(10::real) powr 0 \<le> 10 powr (log 10 m + of_int ?k)"
    using lo by (subst powr_le_cancel_iff) simp_all
  then show "1 \<le> m * pow10 ?k" using eq by simp
  have "(10::real) powr (log 10 m + of_int ?k) < 10 powr 2"
    using hi by (subst powr_less_cancel_iff) simp_all
  then show "m * pow10 ?k < 100" using eq by simp
qed

lemma scale_factor_of_9_thousandths: "calculate_scale_factor [9 / 1000] = 1000"
proof -
  have "py_round (log 10 (10000 / 9)) = int 3"
    by (rule py_round_log10) (simp_all add: power2_eq_square)
  then show ?thesis
    by (simp add: calculate_scale_factor_def mean_def pow10_def)
qed

lemma scale_factor_of_18_millionths:
  "calculate_scale_factor (replicate (Suc n) (18 / 1000000)) = 1000000"
proof -
  have "py_round (log 10 (10 / (18 / 1000000))) = int 6"
    by (rule py_round_log10) (simp_all add: power2_eq_square)
  then show ?thesis
    by (simp add: calculate_scale_factor_def mean_replicate pow10_def Let_def
        del: replicate.simps)
qed

text \<open>
  C5, as the code has it: for a non-empty series with a mean strictly between \<open>0\<close> and
  \<open>0.01\<close> the scale factor is a power of ten \<open>10^k\<close> with \<open>k \<ge> 3\<close>, so at least
  \<open>1000\<close>, and the scaled series has its mean in \<open>[1, 100)\<close>; for a series of all
  values \<open>0.000018\<close> the factor is \<open>1000000\<close>, which is at least \<open>100000\<close>.
\<close>

theorem scale_factor_low_value:
  "(prices \<noteq> [] \<and> 0 < mean prices \<and> mean prices < 1 / 100 \<longrightarrow>
      (\<exists>k. 3 \<le> k \<and> calculate_scale_factor prices = 10 ^ k) \<and>
      1 \<le> mean (scale_prices prices (calculate_scale_factor prices)) \<and>
      mean (scale_prices prices (calculate_scale_factor prices)) < 100) \<and>
   calculate_scale_factor (replicate (Suc n) (18 / 1000000)) = 1000000 \<and>
   100000 \<le> calculate_scale_factor (replicate (Suc n) (18 / 1000000))"
proof (intro conjI impI)
  assume a: "prices \<noteq> [] \<and> 0 < mean prices \<and> mean prices < 1 / 100"
  let ?r = "py_round (log 10 (10 / mean prices))"
  have csf: "calculate_scale_factor prices = pow10 ?r"
    using a by (simp add: calculate_scale_factor_low)
  have "5 / 2 < log 10 (10 / mean prices)"
    using log10_scale_gt_3 [of "mean prices"] a by simp
  then have "2 < real_of_int ?r"
    using py_round_lower [of "log 10 (10 / mean prices)"] by linarith
  then have r: "3 \<le> ?r" by linarith
  then have "pow10 ?r = 10 ^ nat ?r" by (simp add: pow10_def)
  moreover have "3 \<le> nat ?r" using r by simp
  ultimately show "\<exists>k. 3 \<le> k \<and> calculate_scale_factor prices = 10 ^ k"
    using csf by auto
  show "1 \<le> mean (scale_prices prices (calculate_scale_factor prices))"
    using scaled_mean_bounds(1) [of "mean prices"] a by (simp add: mean_scale_prices csf)
  show "mean (scale_prices prices (calculate_scale_factor prices)) < 100"
    using scaled_mean_bounds(2) [of "mean prices"] a by (simp add: mean_scale_prices csf)
next
  show "calculate_scale_factor (replicate (Suc n) (18 / 1000000)) = 1000000"
    by (rule scale_factor_of_18_millionths)
  then show "100000 \<le> calculate_scale_factor (replicate (Suc n) (18 / 1000000))"
    by simp
qed

theorem scale_factor_low_value_witness:
  "[9 / 1000] \<noteq> ([]::real list) \<and> 0 < mean [9 / 1000] \<and> mean [9 / 1000] < 1 / 100 \<and>
   (\<exists>k. 3 \<le> k \<and> calculate_scale_factor [9 / 1000] = 10 ^ k) \<and>
   1 \<le> mean (scale_prices [9 / 1000] (calculate_scale_factor [9 / 1000])) \<and>
   mean (scale_prices [9 / 1000] (calculate_scale_factor [9 / 1000])) < 100"
  using scale_factor_low_value [of "[9 / 1000]" 0] by (simp add: mean_def)

text \<open>
  The bound \<open>100000\<close> does not hold for every mean below \<open>0.01\<close>: the one-price series
  \<open>[0.009]\<close> has the scale factor \<open>1000\<close>.
\<close>

theorem scale_factor_below_100000:
  "[9 / 1000] \<noteq> ([]::real list) \<and> 0 < mean [9 / 1000] \<and> mean [9 / 1000] < 1 / 100 \<and>
   calculate_scale_factor [9 / 1000] = 1000 \<and>
   \<not> 100000 \<le> calculate_scale_factor [9 / 1000]"
  by (simp add: scale_factor_of_9_thousandths) (simp add: mean_def)

lemma py_round_nearest: "\<bar>x - of_int (py_round x)\<bar> \<le> 1 / 2"
  using py_round_lower [of x] py_round_upper [of x] by linarith

lemma py_round_ties_even:
  assumes "\<bar>x - of_int (py_round x)\<bar> = 1 / 2"
  shows "even (py_round x)"
proof -
  let ?f = "\<lfloor>x\<rfloor>"
  let ?d = "x - of_int ?f"
  have d: "0 \<le> ?d" "?d < 1" by linarith+
  show ?thesis
  proof (cases "?d < 1 / 2")
    case True
    then have "py_round x = ?f" by (simp add: py_round_def Let_def)
    with assms True d show ?thesis by simp
  next
    case False
    show ?thesis
    proof (cases "1 / 2 < ?d")
      case True
      then have "py_round x = ?f + 1" using False by (simp add: py_round_def Let_def)
      with assms True d show ?thesis by simp
    next
      case half: False
      then show ?thesis using False by (simp add: py_round_def Let_def)
    qed
  qed
qed

lemma calculate_scale_factor_negative_mean:
  assumes "prices \<noteq> []" and "mean prices \<le> 0"
  shows "calculate_scale_factor prices = 1"
  using assms by (simp add: calculate_scale_factor_def Let_def pow10_def py_round_def)

text \<open>
  C6, as the code has it: the scale factor is \<open>1\<close> when the mean is at least \<open>0.01\<close>; it
  is \<open>1\<close> when the series is empty or its mean is zero or negative (the guard
  \<open>avg_price > 0\<close>); and otherwise, for a mean strictly between \<open>0\<close> and \<open>0.01\<close>, it is
  \<open>10\<close> raised to the integer \<open>k\<close> nearest to \<open>log10(10 / mean)\<close>, the even one of
  the two at a tie, which is what \<open>round\<close> returns. The three cases cover every series.
\<close>

theorem calculate_scale_factor_cases:
  "(1 / 100 \<le> mean prices \<longrightarrow> calculate_scale_factor prices = 1) \<and>
   (prices = [] \<or> mean prices \<le> 0 \<longrightarrow> calculate_scale_factor prices = 1) \<and>
   (prices \<noteq> [] \<and> 0 < mean prices \<and> mean prices < 1 / 100 \<longrightarrow>
      (\<exists>k::int.
         \<bar>log 10 (10 / mean prices) - of_int k\<bar> \<le> 1 / 2 \<and>
         (\<bar>log 10 (10 / mean prices) - of_int k\<bar> = 1 / 2 \<longrightarrow> even k) \<and>
         k = py_round (log 10 (10 / mean prices)) \<and>
         calculate_scale_factor prices = 10 powr of_int k))"
proof (intro conjI impI)
  assume "1 / 100 \<le> mean prices"
  then show "calculate_scale_factor prices = 1"
    by (auto simp: calculate_scale_factor_def mean_def)
next
  assume a: "prices = [] \<or> mean prices \<le> 0"
  show "calculate_scale_factor prices = 1"
  proof (cases "prices = []")
    case True
    then show ?thesis by (simp add: calculate_scale_factor_def)
  next
    case False
    with a have "mean prices \<le> 0" by simp
    with False show ?thesis by (rule calculate_scale_factor_negative_mean)
  qed
next
  assume a: "prices \<noteq> [] \<and> 0 < mean prices \<and> mean prices < 1 / 100"
  let ?L = "log 10 (10 / mean prices)"
  have "calculate_scale_factor prices = 10 powr of_int (py_round ?L)"
    using a calculate_scale_factor_low [of prices] by (simp add: pow10_powr)
  moreover have "\<bar>?L - of_int (py_round ?L)\<bar> \<le> 1 / 2" by (rule py_round_nearest)
  moreover have "\<bar>?L - of_int (py_round ?L)\<bar> = 1 / 2 \<longrightarrow> even (py_round ?L)"
    using py_round_ties_even [of ?L] by blast
  ultimately show "\<exists>k::int.
         \<bar>?L - of_int k\<bar> \<le> 1 / 2 \<and>
         (\<bar>?L - of_int k\<bar> = 1 / 2 \<longrightarrow> even k) \<and>
         k = py_round ?L \<and>
         calculate_scale_factor prices = 10 powr of_int k"
    by blast
qed

theorem calculate_scale_factor_cases_witness:
  "1 / 100 \<le> mean [1, 3] \<and> calculate_scale_factor [1, 3] = 1 \<and>
   calculate_scale_factor [] = 1 \<and>
   mean [0, 0] \<le> 0 \<and> calculate_scale_factor [0, 0] = 1 \<and>
   mean [- 1] \<le> 0 \<and> calculate_scale_factor [- 1] = 1 \<and>
   [9 / 1000] \<noteq> ([]::real list) \<and> 0 < mean [9 / 1000] \<and> mean [9 / 1000] < 1 / 100 \<and>
   calculate_scale_factor [9 / 1000] =
     10 powr real_of_int (py_round (log 10 (10 / mean [9 / 1000]))) \<and>
   \<bar>log 10 (10 / mean [9 / 1000]) -
      real_of_int (py_round (log 10 (10 / mean [9 / 1000])))\<bar> \<le> 1 / 2"
  using calculate_scale_factor_cases [of "[1, 3]"] calculate_scale_factor_cases [of "[]"]
    calculate_scale_factor_cases [of "[0, 0]"] calculate_scale_factor_cases [of "[- 1]"]
    calculate_scale_factor_cases [of "[9 / 1000]"]
  by (simp add: mean_def)

lemma scale_factor_of_minus_one: "calculate_scale_factor [- 1] = 1"
  by (simp add: calculate_scale_factor_def mean_def pow10_def py_round_def)

lemma formula_at_minus_one:
  "10 powr real_of_int (py_round (log 10 (10 / mean [- 1]))) = 10"
proof -
  have "log 10 (- 10) = (1::real)" by (simp add: log_def ln_minus)
  moreover have "py_round 1 = 1" by (simp add: py_round_def)
  ultimately show ?thesis by (simp add: mean_def)
qed

text \<open>
  The series \<open>[-1.0]\<close> is not empty and its mean is neither zero nor at least \<open>0.01\<close>,
  so it falls under "otherwise"; the code returns \<open>1\<close> on it. The formula
  \<open>10 ** round(log10(10 / mean))\<close> asks for the logarithm of \<open>-10\<close>: in Python that is
  \<open>nan\<close>, on which \<open>round\<close> raises, and in HOL, where \<open>log\<close> is total and
  \<open>log 10 (- 10) = 1\<close>, the formula is \<open>10\<close>. Either way it is not the \<open>1\<close> the
  code returns.
\<close>

theorem scale_factor_negative_mean_is_one:
  "[- 1] \<noteq> ([]::real list) \<and> mean [- 1] \<noteq> 0 \<and> mean [- 1] < 1 / 100 \<and>
   10 / mean [- 1] < 0 \<and>
   calculate_scale_factor [- 1] = 1 \<and>
   calculate_scale_factor [- 1] \<noteq>
     10 powr real_of_int (py_round (log 10 (10 / mean [- 1])))"
  unfolding formula_at_minus_one scale_factor_of_minus_one by (simp add: mean_def)

text \<open>
  C7: over exact arithmetic, scaling by a positive factor and descaling by the same factor
  gives back the list.
\<close>

theorem descale_scale_roundtrip:
  assumes "0 < f"
  shows "descale_prices (scale_prices x f) f = x"
  using assms by (simp add: descale_prices_def scale_prices_def o_def)

theorem descale_scale_roundtrip_witness:
  "(0::real) < 1000 \<and> descale_prices (scale_prices [1 / 4, 3, 7] 1000) 1000 = [1 / 4, 3, 7]"
  using descale_scale_roundtrip [of 1000 "[1 / 4, 3, 7]"] by simp

section \<open>Properties of the trend fallback\<close>

lemma length_fallback_loop: "length (fallback_loop slope c l i k) = k"
  by (induction k arbitrary: l i) (simp_all add: Let_def)

lemma fallback_loop_band:
  "v \<in> set (fallback_loop slope c l i k) \<Longrightarrow> \<bar>v - c\<bar> \<le> (2 / 10) * \<bar>c\<bar>"
proof (induction k arbitrary: l i)
  case 0
  then show ?case by simp
next
  case (Suc k)
  let ?n = "min (max (l + slope * (1 - 5 / 100 * real i)) (c * (8 / 10))) (c * (12 / 10))"
  from Suc.prems have "v = ?n \<or> v \<in> set (fallback_loop slope c ?n (Suc i) k)"
    by (simp add: Let_def)
  then show ?case
  proof
    assume "v = ?n"
    then show ?thesis by (simp add: min_def max_def abs_if split: if_splits)
  next
    assume "v \<in> set (fallback_loop slope c ?n (Suc i) k)"
    then show ?thesis by (rule Suc.IH)
  qed
qed

lemma fallback_loop_interval:
  assumes "0 \<le> c" and "v \<in> set (fallback_loop slope c l i k)"
  shows "c * (8 / 10) \<le> v \<and> v \<le> c * (12 / 10)"
  using fallback_loop_band [OF assms(2)] assms(1) by (simp add: abs_if split: if_splits)

lemma simple_fallback_returns:
  assumes "prices \<noteq> []"
  shows "\<exists>f. simple_fallback prices days = Inr f \<and> length f = nat days"
  using assms by (simp add: simple_fallback_def Let_def length_fallback_loop)

lemma simple_fallback_band:
  assumes "simple_fallback prices days = Inr f" and "v \<in> set f"
  shows "\<bar>v - last prices\<bar> \<le> (2 / 10) * \<bar>last prices\<bar>"
proof (cases "length prices < 2")
  case True
  with assms show ?thesis by (auto simp: simple_fallback_def split: if_splits)
next
  case False
  with assms show ?thesis
    by (auto simp: simple_fallback_def Let_def dest: fallback_loop_band)
qed

lemma polyfit_slope_two: "polyfit_slope [a, b] = b - a"
proof -
  have e: "(exp (1::real))\<^sup>2 \<noteq> 0" by simp
  have lt: "{..<2::nat} = {0, 1}" by auto
  show ?thesis
    unfolding polyfit_slope_def Let_def
    using e by (simp add: lt field_simps power2_eq_square)
qed

lemma simple_fallback_1_2: "simple_fallback [1, 2] 1 = Inr [12 / 5]"
  by (simp add: simple_fallback_def Let_def polyfit_slope_two)

lemma simple_fallback_100: "simple_fallback [100] 5 = Inr [100, 100, 100, 100, 100]"
  by (simp add: simple_fallback_def numeral_eq_Suc)

section \<open>Properties of the model-based forecasters\<close>

lemma anchor_Inr:
  assumes "anchor prices predictions = Inr f"
  shows "prices \<noteq> [] \<and> predictions \<noteq> [] \<and> length f = length predictions \<and> f \<noteq> [] \<and> hd f = last prices"
  using assms by (auto simp: anchor_def Let_def hd_map split: if_splits)

lemma xgb_loop_length:
  "xgb_loop L model k current_prices predictions = Inr r \<Longrightarrow> length r = length predictions + k"
proof (induction k arbitrary: current_prices predictions)
  case 0
  then show ?case by simp
next
  case (Suc k)
  show ?case
  proof (cases "create_features L current_prices")
    case (Inl e)
    with Suc.prems show ?thesis by simp
  next
    case (Inr row)
    show ?thesis
    proof (cases row)
      case None
      with Inr Suc.prems have "xgb_loop L model k current_prices (predictions @ [last current_prices]) = Inr r"
        by (simp split: if_splits)
      from Suc.IH [OF this] show ?thesis by simp
    next
      case (Some feats)
      with Inr Suc.prems obtain next_pred where
        "xgb_loop L model k (current_prices @ [next_pred]) (predictions @ [next_pred]) = Inr r"
        by (auto split: sum.splits)
      from Suc.IH [OF this] show ?thesis by simp
    qed
  qed
qed

lemma lstm_loop_length:
  "lstm_loop L model k current_sequence predictions = Inr r \<Longrightarrow> length r = length predictions + k"
proof (induction k arbitrary: current_sequence predictions)
  case 0
  then show ?case by simp
next
  case (Suc k)
  from Suc.prems obtain next_pred where
    "lstm_loop L model k (drop 1 current_sequence @ [next_pred]) (predictions @ [next_pred]) = Inr r"
    by (auto split: sum.splits)
  from Suc.IH [OF this] show ?case by simp
qed

lemma ensemble_loop_length:
  "ensemble_loop predictions_list weights day k = Inr r \<Longrightarrow> length r = k"
  by (induction k arbitrary: day r) (auto split: sum.splits)

lemma xgboost_forecast_Inr:
  assumes "xgboost_forecast L prices days = Inr f"
  shows "length f = nat days \<and> f \<noteq> [] \<and> hd f = last prices"
proof -
  from assms obtain model predictions where
    loop: "xgb_loop L model (nat days) prices [] = Inr predictions"
    and a: "anchor prices predictions = Inr f"
    by (auto simp: xgboost_forecast_def split: sum.splits)
  from xgb_loop_length [OF loop] anchor_Inr [OF a] show ?thesis by simp
qed

lemma prophet_forecast_Inr:
  assumes "prophet_forecast L prices days = Inr f"
  shows "f \<noteq> [] \<and> hd f = last prices"
  using assms by (auto simp: prophet_forecast_def split: sum.splits dest: anchor_Inr)

lemma lstm_forecast_Inr:
  assumes "lstm_forecast L prices days = Inr f"
  shows "length f = nat days \<and> f \<noteq> [] \<and> hd f = last prices"
proof -
  from assms obtain model predictions where
    loop: "lstm_loop L model (nat days) (lstm_window L prices) [] = Inr predictions"
    and a: "anchor prices (map (inverse_transform L model) predictions) = Inr f"
    by (auto simp: lstm_forecast_def split: sum.splits)
  from lstm_loop_length [OF loop] anchor_Inr [OF a] show ?thesis by simp
qed

lemma ensemble_forecast_Inr:
  assumes "ensemble_forecast L prices days = Inr f"
  shows "length f = nat days \<and> (1 \<le> days \<longrightarrow> f \<noteq> [] \<and> hd f = last prices)"
proof -
  define acc where "acc = add_member (simple_fallback prices days) (25 / 100)
      (add_member (arima_predict L prices days) (35 / 100)
        (add_member (prophet_forecast L prices days) (4 / 10) ([], [])))"
  show ?thesis
  proof (cases "fst acc = []")
    case True
    with assms have "f = replicate (nat days) (last prices)"
      by (auto simp: ensemble_forecast_def Let_def acc_def split: if_splits)
    then show ?thesis by (cases "nat days") auto
  next
    case False
    with assms obtain ws ensemble where
      loop: "ensemble_loop (fst acc) ws 0 (nat days) = Inr ensemble"
      and a: "anchor prices ensemble = Inr f"
      by (auto simp: ensemble_forecast_def Let_def acc_def split: if_splits sum.splits)
    from ensemble_loop_length [OF loop] anchor_Inr [OF a] show ?thesis by simp
  qed
qed

lemma length_descale_if: "length (descale_if sf f) = length f"
  by (simp add: descale_if_def descale_prices_def)

lemma scaled_nonempty:
  "prices \<noteq> [] \<Longrightarrow> (if sf > 1 then scale_prices prices sf else prices) \<noteq> []"
  by (simp add: scale_prices_def)

lemma generate_forecast_long:
  assumes "prices \<noteq> []" and "\<not> length prices < 30"
  shows "generate_forecast L prices days =
     (let sf = calculate_scale_factor prices;
          sp = (if sf > 1 then scale_prices prices sf else prices)
      in case xgboost_forecast L sp days of
           Inr forecast \<Rightarrow> Inr (descale_if sf forecast)
         | Inl e \<Rightarrow>
             (case ensemble_forecast L sp days of
                Inr forecast \<Rightarrow> Inr (descale_if sf forecast)
              | Inl e \<Rightarrow>
                  (case lstm_forecast L sp days of
                     Inr forecast \<Rightarrow> Inr (descale_if sf forecast)
                   | Inl e \<Rightarrow>
                       (case simple_fallback sp days of
                          Inl e \<Rightarrow> Inl e
                        | Inr forecast \<Rightarrow> Inr (descale_if sf forecast)))))"
  using assms by (simp add: generate_forecast_def)

lemma generate_forecast_returns:
  assumes "prices \<noteq> []"
  shows "\<exists>f. generate_forecast L prices days = Inr f \<and> length f = nat days"
proof (cases "length prices < 30")
  case True
  with assms simple_fallback_returns [OF assms, of days] show ?thesis
    by (simp add: generate_forecast_def)
next
  case False
  define sf where "sf = calculate_scale_factor prices"
  define sp where "sp = (if sf > 1 then scale_prices prices sf else prices)"
  have sp: "sp \<noteq> []" unfolding sp_def using assms by (rule scaled_nonempty)
  from simple_fallback_returns [OF sp, of days] obtain g where
    g: "simple_fallback sp days = Inr g" "length g = nat days" by blast
  have eq: "generate_forecast L prices days =
     (case xgboost_forecast L sp days of
           Inr forecast \<Rightarrow> Inr (descale_if sf forecast)
         | Inl e \<Rightarrow>
             (case ensemble_forecast L sp days of
                Inr forecast \<Rightarrow> Inr (descale_if sf forecast)
              | Inl e \<Rightarrow>
                  (case lstm_forecast L sp days of
                     Inr forecast \<Rightarrow> Inr (descale_if sf forecast)
                   | Inl e \<Rightarrow>
                       (case simple_fallback sp days of
                          Inl e \<Rightarrow> Inl e
                        | Inr forecast \<Rightarrow> Inr (descale_if sf forecast)))))"
    unfolding generate_forecast_long [OF assms False] sf_def sp_def Let_def ..
  show ?thesis
  proof (cases "xgboost_forecast L sp days")
    case (Inr f)
    with eq xgboost_forecast_Inr [OF Inr] show ?thesis by (simp add: length_descale_if)
  next
    case x: (Inl e)
    show ?thesis
    proof (cases "ensemble_forecast L sp days")
      case (Inr f)
      with eq x ensemble_forecast_Inr [OF Inr] show ?thesis by (simp add: length_descale_if)
    next
      case en: (Inl e')
      show ?thesis
      proof (cases "lstm_forecast L sp days")
        case (Inr f)
        with eq x en lstm_forecast_Inr [OF Inr] show ?thesis by (simp add: length_descale_if)
      next
        case (Inl e'')
        with eq x en g show ?thesis by (simp add: length_descale_if)
      qed
    qed
  qed
qed

section \<open>Properties of the orchestrator\<close>

text \<open>
  C1: for a non-empty price list and \<open>days \<ge> 1\<close>, \<open>generate_forecast\<close> returns a list of
  exactly \<open>days\<close> values, whatever the libraries do; on the empty list it returns the empty
  list; and for \<open>days \<ge> 1\<close> its result is empty exactly when \<open>prices\<close> is.
\<close>

theorem generate_forecast_length:
  "(prices \<noteq> [] \<and> 1 \<le> days \<longrightarrow>
      (\<exists>f. generate_forecast L prices days = Inr f \<and> int (length f) = days \<and> f \<noteq> [])) \<and>
   generate_forecast L [] days = Inr [] \<and>
   (1 \<le> days \<longrightarrow> (generate_forecast L prices days = Inr [] \<longleftrightarrow> prices = []))"
proof (intro conjI impI)
  assume a: "prices \<noteq> [] \<and> 1 \<le> days"
  then obtain f where f: "generate_forecast L prices days = Inr f" "length f = nat days"
    using generate_forecast_returns [of prices L days] by blast
  with a have "int (length f) = days \<and> f \<noteq> []" by auto
  with f show "\<exists>f. generate_forecast L prices days = Inr f \<and> int (length f) = days \<and> f \<noteq> []"
    by blast
next
  show "generate_forecast L [] days = Inr []" by (simp add: generate_forecast_def)
next
  assume d: "1 \<le> days"
  show "generate_forecast L prices days = Inr [] \<longleftrightarrow> prices = []"
  proof
    assume e: "generate_forecast L prices days = Inr []"
    show "prices = []"
    proof (rule ccontr)
      assume "prices \<noteq> []"
      then obtain f where "generate_forecast L prices days = Inr f" "length f = nat days"
        using generate_forecast_returns [of prices L days] by blast
      with e d show False by auto
    qed
  next
    assume "prices = []"
    then show "generate_forecast L prices days = Inr []" by (simp add: generate_forecast_def)
  qed
qed

theorem generate_forecast_length_witness:
  "[100, 101] \<noteq> ([]::real list) \<and> (1::int) \<le> 3 \<and>
   (\<exists>f. generate_forecast no_libs [100, 101] 3 = Inr f \<and> int (length f) = 3 \<and> f \<noteq> []) \<and>
   generate_forecast no_libs (replicate 30 2) 3 \<noteq> Inr []"
  using generate_forecast_length [of "[100, 101]" 3 no_libs]
    generate_forecast_length [of "replicate 30 2" 3 no_libs]
  by simp

text \<open>
  C2: on a non-empty price list \<open>generate_forecast\<close> returns normally for every behaviour
  of the libraries, hence for every combination of failures of the three model tiers. On
  \<open>30\<close> prices or more the result is the descaled forecast of the first tier that
  returns, in the order tree-based, ensemble, sequence model; when all three raise, it is
  the descaled trend fallback, which returns.
\<close>

theorem generate_forecast_never_raises:
  assumes "prices \<noteq> []"
  shows "(\<exists>f. generate_forecast L prices days = Inr f) \<and>
    (30 \<le> length prices \<longrightarrow>
      (let sf = calculate_scale_factor prices;
           sp = (if sf > 1 then scale_prices prices sf else prices)
       in case xgboost_forecast L sp days of
            Inr f \<Rightarrow> generate_forecast L prices days = Inr (descale_if sf f)
          | Inl e \<Rightarrow>
              (case ensemble_forecast L sp days of
                 Inr f \<Rightarrow> generate_forecast L prices days = Inr (descale_if sf f)
               | Inl e \<Rightarrow>
                   (case lstm_forecast L sp days of
                      Inr f \<Rightarrow> generate_forecast L prices days = Inr (descale_if sf f)
                    | Inl e \<Rightarrow>
                        (\<exists>f. simple_fallback sp days = Inr f \<and>
                           generate_forecast L prices days = Inr (descale_if sf f))))))"
proof (intro conjI impI)
  show "\<exists>f. generate_forecast L prices days = Inr f"
    using generate_forecast_returns [OF assms, of L days] by blast
next
  assume "30 \<le> length prices"
  then have long: "\<not> length prices < 30" by simp
  define sf where "sf = calculate_scale_factor prices"
  define sp where "sp = (if sf > 1 then scale_prices prices sf else prices)"
  have "sp \<noteq> []" unfolding sp_def using assms by (rule scaled_nonempty)
  then obtain g where g: "simple_fallback sp days = Inr g"
    using simple_fallback_returns [of sp days] by blast
  have "case xgboost_forecast L sp days of
            Inr f \<Rightarrow> generate_forecast L prices days = Inr (descale_if sf f)
          | Inl e \<Rightarrow>
              (case ensemble_forecast L sp days of
                 Inr f \<Rightarrow> generate_forecast L prices days = Inr (descale_if sf f)
               | Inl e \<Rightarrow>
                   (case lstm_forecast L sp days of
                      Inr f \<Rightarrow> generate_forecast L prices days = Inr (descale_if sf f)
                    | Inl e \<Rightarrow>
                        (\<exists>f. simple_fallback sp days = Inr f \<and>
                           generate_forecast L prices days = Inr (descale_if sf f))))"
    unfolding generate_forecast_long [OF assms long] Let_def sf_def [symmetric] sp_def [symmetric]
    using g by (simp split: sum.splits)
  then show "let sf = calculate_scale_factor prices;
           sp = (if sf > 1 then scale_prices prices sf else prices)
       in case xgboost_forecast L sp days of
            Inr f \<Rightarrow> generate_forecast L prices days = Inr (descale_if sf f)
          | Inl e \<Rightarrow>
              (case ensemble_forecast L sp days of
                 Inr f \<Rightarrow> generate_forecast L prices days = Inr (descale_if sf f)
               | Inl e \<Rightarrow>
                   (case lstm_forecast L sp days of
                      Inr f \<Rightarrow> generate_forecast L prices days = Inr (descale_if sf f)
                    | Inl e \<Rightarrow>
                        (\<exists>f. simple_fallback sp days = Inr f \<and>
                           generate_forecast L prices days = Inr (descale_if sf f))))"
    unfolding Let_def sf_def sp_def .
qed

theorem generate_forecast_never_raises_witness:
  "replicate 30 2 \<noteq> ([]::real list) \<and> (\<exists>f. generate_forecast no_libs (replicate 30 2) 7 = Inr f)"
  using generate_forecast_never_raises [of "replicate 30 2" no_libs 7] by simp

text \<open>
  C4: on a non-empty price list of fewer than \<open>30\<close> prices, \<open>generate_forecast\<close> is
  \<open>_simple_fallback\<close> on the same list and the same \<open>days\<close>; no library is consulted.
\<close>

theorem generate_forecast_short:
  assumes "prices \<noteq> []" and "length prices < 30"
  shows "generate_forecast L prices days = simple_fallback prices days"
  using assms by (simp add: generate_forecast_def)

theorem generate_forecast_short_witness:
  "[100, 102, 104, 103, 105, 107, 110, 112, 115, 118] \<noteq> ([]::real list) \<and>
   length [100, 102, 104, 103, 105, 107, 110, 112, 115, 118 :: real] < 30 \<and>
   generate_forecast no_libs [100, 102, 104, 103, 105, 107, 110, 112, 115, 118] 3 =
     simple_fallback [100, 102, 104, 103, 105, 107, 110, 112, 115, 118] 3"
  using generate_forecast_short [of "[100, 102, 104, 103, 105, 107, 110, 112, 115, 118]" no_libs 3]
  by simp

section \<open>Anchoring, the short series and the clamp\<close>

lemma simple_fallback_long:
  assumes "2 \<le> length prices"
  shows "simple_fallback prices days =
     Inr (fallback_loop (polyfit_slope (drop (length prices - min 14 (length prices)) prices) * (6 / 10))
            (last prices) (last prices) 0 (nat days))"
  using assms by (simp add: simple_fallback_def Let_def)

text \<open>
  C3, as the code has it: a forecast returned by the tree-based, the statistical or the
  sequence-model forecaster starts at the last price of its input, and so does one
  returned by the ensemble combiner for \<open>days \<ge> 1\<close>. The trend fallback has no anchoring
  step: on one price and \<open>days \<ge> 1\<close> its forecast starts at that price, and on two prices
  or more it starts at the last price plus the dampened slope, clamped to the band of
  20 percent around the last price.
\<close>

theorem forecasters_anchored:
  "(xgboost_forecast L prices days = Inr f \<longrightarrow> f \<noteq> [] \<and> hd f = last prices) \<and>
   (prophet_forecast L prices days = Inr f \<longrightarrow> f \<noteq> [] \<and> hd f = last prices) \<and>
   (lstm_forecast L prices days = Inr f \<longrightarrow> f \<noteq> [] \<and> hd f = last prices) \<and>
   (ensemble_forecast L prices days = Inr f \<and> 1 \<le> days \<longrightarrow> f \<noteq> [] \<and> hd f = last prices) \<and>
   (prices \<noteq> [] \<and> length prices < 2 \<and> 1 \<le> days \<longrightarrow>
      (\<exists>g. simple_fallback prices days = Inr g \<and> g \<noteq> [] \<and> hd g = last prices)) \<and>
   (2 \<le> length prices \<and> 1 \<le> days \<longrightarrow>
      (\<exists>g. simple_fallback prices days = Inr g \<and> g \<noteq> [] \<and>
         hd g = min (max (last prices +
                     polyfit_slope (drop (length prices - min 14 (length prices)) prices) * (6 / 10))
                  (last prices * (8 / 10))) (last prices * (12 / 10))))"
proof (intro conjI impI)
  assume "xgboost_forecast L prices days = Inr f"
  from xgboost_forecast_Inr [OF this] show "f \<noteq> []" "hd f = last prices" by simp_all
next
  assume "prophet_forecast L prices days = Inr f"
  from prophet_forecast_Inr [OF this] show "f \<noteq> []" "hd f = last prices" by simp_all
next
  assume "lstm_forecast L prices days = Inr f"
  from lstm_forecast_Inr [OF this] show "f \<noteq> []" "hd f = last prices" by simp_all
next
  assume a: "ensemble_forecast L prices days = Inr f \<and> 1 \<le> days"
  then have "ensemble_forecast L prices days = Inr f" by simp
  from ensemble_forecast_Inr [OF this] a show "f \<noteq> []" "hd f = last prices" by simp_all
next
  assume a: "prices \<noteq> [] \<and> length prices < 2 \<and> 1 \<le> days"
  then obtain k where "nat days = Suc k" by (cases "nat days") auto
  with a show "\<exists>g. simple_fallback prices days = Inr g \<and> g \<noteq> [] \<and> hd g = last prices"
    by (simp add: simple_fallback_def)
next
  assume a: "2 \<le> length prices \<and> 1 \<le> days"
  then obtain k where "nat days = Suc k" by (cases "nat days") auto
  with a show "\<exists>g. simple_fallback prices days = Inr g \<and> g \<noteq> [] \<and>
         hd g = min (max (last prices +
                     polyfit_slope (drop (length prices - min 14 (length prices)) prices) * (6 / 10))
                  (last prices * (8 / 10))) (last prices * (12 / 10))"
    by (simp add: simple_fallback_long Let_def)
qed

lemma simple_fallback_100_101: "simple_fallback [100, 101] 1 = Inr [508 / 5]"
  by (simp add: simple_fallback_def Let_def polyfit_slope_two)

lemma xgb_flat: "xgboost_forecast flat_libs [100, 101] 2 = Inr [101, 101]"
  by (simp add: xgboost_forecast_def flat_libs_def anchor_def numeral_2_eq_2)

lemma prophet_flat: "prophet_forecast flat_libs [100, 101] 2 = Inr [101, 101]"
  by (simp add: prophet_forecast_def flat_libs_def anchor_def numeral_2_eq_2)

lemma lstm_flat: "lstm_forecast flat_libs [100, 101] 2 = Inr [101, 101]"
  by (simp add: lstm_forecast_def flat_libs_def anchor_def numeral_2_eq_2)

lemma simple_fallback_100_101_2: "simple_fallback [100, 101] 2 = Inr [508 / 5, 10217 / 100]"
  by (simp add: simple_fallback_def Let_def polyfit_slope_two numeral_2_eq_2)

lemma ensemble_flat: "ensemble_forecast flat_libs [100, 101] 2 = Inr [101, 101 + 57 / 400]"
  unfolding ensemble_forecast_def prophet_flat simple_fallback_100_101_2
  by (simp add: flat_libs_def add_member_def anchor_def day_pred_def numeral_2_eq_2)

theorem forecasters_anchored_witness:
  "xgboost_forecast flat_libs [100, 101] 2 = Inr [101, 101] \<and>
   hd [101, 101] = last [100, 101 :: real] \<and>
   prophet_forecast flat_libs [100, 101] 2 = Inr [101, 101] \<and>
   lstm_forecast flat_libs [100, 101] 2 = Inr [101, 101] \<and>
   ensemble_forecast flat_libs [100, 101] 2 = Inr [101, 101 + 57 / 400] \<and> (1::int) \<le> 2 \<and>
   hd [101, 101 + 57 / 400] = last [100, 101 :: real] \<and>
   [7] \<noteq> ([]::real list) \<and> length [7::real] < 2 \<and>
   (\<exists>g. simple_fallback [7] 2 = Inr g \<and> g \<noteq> [] \<and> hd g = last [7]) \<and>
   2 \<le> length [100, 101 :: real] \<and>
   (\<exists>g. simple_fallback [100, 101] 1 = Inr g \<and> g \<noteq> [] \<and> hd g = 508 / 5)"
  using forecasters_anchored [of flat_libs "[100, 101]" 2 "[101, 101]"]
    forecasters_anchored [of flat_libs "[100, 101]" 2 "[101, 101 + 57 / 400]"]
    forecasters_anchored [of flat_libs "[7]" 2]
    forecasters_anchored [of flat_libs "[100, 101]" 1]
  by (simp add: xgb_flat prophet_flat lstm_flat ensemble_flat polyfit_slope_two)

text \<open>
  The forecast of the trend fallback on \<open>[100.0, 101.0]\<close> for one day is \<open>[101.6]\<close>: it
  does not start at the last price \<open>101.0\<close>.
\<close>

theorem trend_fallback_not_anchored:
  "[100, 101] \<noteq> ([]::real list) \<and> (1::int) \<le> 1 \<and>
   simple_fallback [100, 101] 1 = Inr [508 / 5] \<and> hd [508 / 5] \<noteq> last [100, 101 :: real]"
  by (simp add: simple_fallback_100_101)

text \<open>
  C8, as the code has it: on every non-empty price list the trend fallback returns; on a
  list of exactly one price (non-empty, fewer than two) it returns that price repeated
  \<open>days\<close> times; on \<open>[100.0]\<close> with \<open>days = 5\<close> it returns five times \<open>100.0\<close>.
\<close>

theorem simple_fallback_short:
  "(prices \<noteq> [] \<longrightarrow> (\<exists>f. simple_fallback prices days = Inr f)) \<and>
   (prices \<noteq> [] \<and> length prices < 2 \<longrightarrow>
      simple_fallback prices days = Inr (replicate (nat days) (last prices))) \<and>
   simple_fallback [100] 5 = Inr [100, 100, 100, 100, 100]"
proof (intro conjI impI)
  assume "prices \<noteq> []"
  from simple_fallback_returns [OF this, of days] show "\<exists>f. simple_fallback prices days = Inr f"
    by blast
next
  assume "prices \<noteq> [] \<and> length prices < 2"
  then show "simple_fallback prices days = Inr (replicate (nat days) (last prices))"
    by (simp add: simple_fallback_def)
next
  show "simple_fallback [100] 5 = Inr [100, 100, 100, 100, 100]"
    by (simp add: simple_fallback_def numeral_eq_Suc)
qed

theorem simple_fallback_short_witness:
  "[42] \<noteq> ([]::real list) \<and> length [42::real] < 2 \<and>
   (\<exists>f. simple_fallback [42] 3 = Inr f) \<and>
   simple_fallback [42] 3 = Inr (replicate (nat 3) (last [42]))"
  using simple_fallback_short [of "[42]" 3] by simp

text \<open>
  The empty list has fewer than two elements, and on it \<open>prices[-1]\<close> raises: the trend
  fallback fails with \<open>IndexError\<close>.
\<close>

theorem simple_fallback_empty_raises:
  "length ([]::real list) < 2 \<and> simple_fallback [] 5 = Inl IndexError"
  by (simp add: simple_fallback_def)

text \<open>
  C9: on a non-empty price list the trend fallback returns \<open>days\<close> values (none for
  \<open>days \<le> 0\<close>), each of which deviates from the last price by at most 20 percent of it;
  for a last price that is not negative, as every price is, this is the closed interval
  from \<open>0.8 * prices[-1]\<close> to \<open>1.2 * prices[-1]\<close>.
\<close>

theorem simple_fallback_clamped:
  assumes "prices \<noteq> []"
  shows "\<exists>f. simple_fallback prices days = Inr f \<and> int (length f) = max 0 days \<and>
     (\<forall>v\<in>set f. \<bar>v - last prices\<bar> \<le> (2 / 10) * \<bar>last prices\<bar>) \<and>
     (0 \<le> last prices \<longrightarrow>
        (\<forall>v\<in>set f. (8 / 10) * last prices \<le> v \<and> v \<le> (12 / 10) * last prices))"
proof -
  from simple_fallback_returns [OF assms, of days] obtain f where
    f: "simple_fallback prices days = Inr f" "length f = nat days" by blast
  have band: "\<forall>v\<in>set f. \<bar>v - last prices\<bar> \<le> (2 / 10) * \<bar>last prices\<bar>"
    using simple_fallback_band [OF f(1)] by blast
  have "\<forall>v\<in>set f. (8 / 10) * last prices \<le> v \<and> v \<le> (12 / 10) * last prices"
    if "0 \<le> last prices"
  proof
    fix v assume "v \<in> set f"
    with band have "\<bar>v - last prices\<bar> \<le> (2 / 10) * \<bar>last prices\<bar>" by blast
    with that show "(8 / 10) * last prices \<le> v \<and> v \<le> (12 / 10) * last prices"
      by (simp add: abs_if split: if_splits)
  qed
  with f band show ?thesis by auto
qed

theorem simple_fallback_clamped_witness:
  "[100, 101] \<noteq> ([]::real list) \<and> simple_fallback [100, 101] 2 = Inr [508 / 5, 10217 / 100] \<and>
   (0::real) \<le> last [100, 101] \<and>
   (8 / 10) * last [100, 101] \<le> (508 / 5 :: real) \<and> (508 / 5 :: real) \<le> (12 / 10) * last [100, 101] \<and>
   (8 / 10) * last [100, 101] \<le> (10217 / 100 :: real) \<and> (10217 / 100 :: real) \<le> (12 / 10) * last [100, 101]"
  using simple_fallback_clamped [of "[100, 101]" 2]
  by (simp add: simple_fallback_100_101_2)

section \<open>The store: the caller's list is not changed\<close>

lemma floats_append_old [simp]: "a < length h \<Longrightarrow> floats (h @ hs) a = floats h a"
  by (simp add: floats_def nth_append)

lemma floats_append_new [simp]: "a = length h \<Longrightarrow> floats (h @ [Floats xs]) a = xs"
  by (simp add: floats_def)

lemma floats_update_same [simp]: "a < length h \<Longrightarrow> floats (h[a := Floats xs]) a = xs"
  by (simp add: floats_def)

lemma floats_update_other [simp]: "a \<noteq> b \<Longrightarrow> floats (h[b := v]) a = floats h a"
  by (simp add: floats_def)

lemma fallback_loop_h_spec:
  assumes "fa < length h" and "h ! fa = Floats xs"
  shows "fallback_loop_h slope c l i k fa h =
     (Inr (), h[fa := Floats (xs @ fallback_loop slope c l i k)])"
  using assms
proof (induction k arbitrary: l i h xs)
  case 0
  then have "h[fa := Floats xs] = h" by (metis list_update_id)
  then show ?case by (simp add: ret_def)
next
  case (Suc k)
  then show ?case
    by (simp add: Let_def bind_def append_float_def floats_def)
qed

lemma take_update_beyond: "n \<le> a \<Longrightarrow> take n (h[a := v]) = take n h"
  by simp

lemma simple_fallback_h_agrees:
  "agrees h (simple_fallback_h p days h) (simple_fallback (floats h p) days)"
proof (cases "length (floats h p) < 2")
  case True
  then show ?thesis
    by (simp add: agrees_def simple_fallback_h_def simple_fallback_def bind_def get_floats_def
        raise_def new_list_def)
next
  case False
  then show ?thesis
    by (simp add: agrees_def simple_fallback_h_def simple_fallback_def bind_def get_floats_def
        new_list_def Let_def ret_def fallback_loop_h_spec nth_append floats_def)
qed

lemma anchor_h_agrees:
  "agrees h (anchor_h p q h) (anchor (floats h p) (floats h q))"
  by (simp add: agrees_def anchor_h_def anchor_def bind_def get_floats_def raise_def new_list_def
      Let_def)

lemma xgb_loop_h_spec:
  assumes "cp < length h" "pr < length h" "cp \<noteq> pr" "h ! cp = Floats cs" "h ! pr = Floats ps"
  shows "case xgb_loop_h L model k cp pr h of (r, h') \<Rightarrow>
     length h' = length h \<and> (\<forall>a. a \<noteq> cp \<longrightarrow> a \<noteq> pr \<longrightarrow> h' ! a = h ! a) \<and>
     (case r of
        Inl e \<Rightarrow> xgb_loop L model k cs ps = Inl e
      | Inr u \<Rightarrow> xgb_loop L model k cs ps = Inr (floats h' pr))"
  using assms
proof (induction k arbitrary: h cs ps)
  case 0
  then show ?case by (simp add: ret_def floats_def)
next
  case (Suc k)
  have fl: "floats h cp = cs" "floats h pr = ps" using Suc.prems by (simp_all add: floats_def)
  show ?case
  proof (cases "create_features L cs")
    case (Inl e)
    then show ?thesis by (simp add: bind_def get_floats_def fl raise_def)
  next
    case (Inr row)
    show ?thesis
    proof (cases row)
      case None
      show ?thesis
      proof (cases "cs = []")
        case True
        with Inr None show ?thesis by (simp add: bind_def get_floats_def fl raise_def)
      next
        case False
        let ?h1 = "h[pr := Floats (ps @ [last cs])]"
        have step: "xgb_loop_h L model (Suc k) cp pr h = xgb_loop_h L model k cp pr ?h1"
          using Inr None False by (simp add: bind_def get_floats_def fl append_float_def)
        have "case xgb_loop_h L model k cp pr ?h1 of (r, h') \<Rightarrow>
            length h' = length ?h1 \<and> (\<forall>a. a \<noteq> cp \<longrightarrow> a \<noteq> pr \<longrightarrow> h' ! a = ?h1 ! a) \<and>
            (case r of
               Inl e \<Rightarrow> xgb_loop L model k cs (ps @ [last cs]) = Inl e
             | Inr u \<Rightarrow> xgb_loop L model k cs (ps @ [last cs]) = Inr (floats h' pr))"
          using Suc.prems by (intro Suc.IH) simp_all
        then show ?thesis
          unfolding step using Inr None False by (auto split: prod.splits sum.splits)
      qed
    next
      case (Some feats)
      show ?thesis
      proof (cases "xgb_predict L model feats")
        case (Inl e)
        with Inr Some show ?thesis by (simp add: bind_def get_floats_def fl raise_def)
      next
        case np: (Inr next_pred)
        let ?h1 = "h[pr := Floats (ps @ [next_pred]), cp := Floats (cs @ [next_pred])]"
        have step: "xgb_loop_h L model (Suc k) cp pr h = xgb_loop_h L model k cp pr ?h1"
          using Inr Some np Suc.prems
          by (simp add: bind_def get_floats_def fl append_float_def floats_def)
        have "case xgb_loop_h L model k cp pr ?h1 of (r, h') \<Rightarrow>
            length h' = length ?h1 \<and> (\<forall>a. a \<noteq> cp \<longrightarrow> a \<noteq> pr \<longrightarrow> h' ! a = ?h1 ! a) \<and>
            (case r of
               Inl e \<Rightarrow> xgb_loop L model k (cs @ [next_pred]) (ps @ [next_pred]) = Inl e
             | Inr u \<Rightarrow> xgb_loop L model k (cs @ [next_pred]) (ps @ [next_pred]) = Inr (floats h' pr))"
          using Suc.prems by (intro Suc.IH) simp_all
        then show ?thesis
          unfolding step using Inr Some np by (auto split: prod.splits sum.splits)
      qed
    qed
  qed
qed

lemma lstm_loop_h_spec:
  assumes "pr < length h" "h ! pr = Floats ps"
  shows "case lstm_loop_h L model k sq pr h of (r, h') \<Rightarrow>
     length h' = length h \<and> (\<forall>a. a \<noteq> pr \<longrightarrow> h' ! a = h ! a) \<and>
     (case r of
        Inl e \<Rightarrow> lstm_loop L model k sq ps = Inl e
      | Inr u \<Rightarrow> lstm_loop L model k sq ps = Inr (floats h' pr))"
  using assms
proof (induction k arbitrary: h sq ps)
  case 0
  then show ?case by (simp add: ret_def floats_def)
next
  case (Suc k)
  show ?case
  proof (cases "lstm_predict L model sq")
    case (Inl e)
    then show ?thesis by (simp add: raise_def)
  next
    case np: (Inr next_pred)
    let ?h1 = "h[pr := Floats (ps @ [next_pred])]"
    have step: "lstm_loop_h L model (Suc k) sq pr h
        = lstm_loop_h L model k (drop 1 sq @ [next_pred]) pr ?h1"
      using np Suc.prems by (simp add: bind_def append_float_def floats_def)
    have "case lstm_loop_h L model k (drop 1 sq @ [next_pred]) pr ?h1 of (r, h') \<Rightarrow>
        length h' = length ?h1 \<and> (\<forall>a. a \<noteq> pr \<longrightarrow> h' ! a = ?h1 ! a) \<and>
        (case r of
           Inl e \<Rightarrow> lstm_loop L model k (drop 1 sq @ [next_pred]) (ps @ [next_pred]) = Inl e
         | Inr u \<Rightarrow>
             lstm_loop L model k (drop 1 sq @ [next_pred]) (ps @ [next_pred]) = Inr (floats h' pr))"
      using Suc.prems by (intro Suc.IH) simp_all
    then show ?thesis
      unfolding step using np by (auto split: prod.splits sum.splits)
  qed
qed

lemma agreesI:
  assumes "m = (r, h')" and "take (length h) h' = h"
    and "\<And>e. r = Inl e \<Longrightarrow> pure = Inl e"
    and "\<And>a. r = Inr a \<Longrightarrow> length h \<le> a \<and> a < length h' \<and> pure = Inr (floats h' a)"
  shows "agrees h m pure"
  using assms by (auto simp: agrees_def split: sum.splits)

lemma agreesE:
  assumes "agrees h m pure"
  obtains r h' where "m = (r, h')" and "take (length h) h' = h" and "length h \<le> length h'"
    and "\<And>e. r = Inl e \<Longrightarrow> pure = Inl e"
    and "\<And>a. r = Inr a \<Longrightarrow> length h \<le> a \<and> a < length h' \<and> pure = Inr (floats h' a)"
proof -
  obtain r h' where m: "m = (r, h')" by (cases m)
  with assms have t: "take (length h) h' = h" by (simp add: agrees_def)
  then have "length h \<le> length h'" by (metis length_take min.cobounded1 min.commute)
  with m t assms show ?thesis
    by (intro that [of r h']) (auto simp: agrees_def split: sum.splits)
qed

lemma floats_old:
  assumes "take (length h) h' = h" and "a < length h"
  shows "floats h' a = floats h a"
proof -
  have "length h \<le> length h'" using assms(1) by (metis length_take min.cobounded1 min.commute)
  moreover have "h' ! a = h ! a" using assms by (metis nth_take)
  ultimately show ?thesis using assms(2) by (simp add: floats_def)
qed

lemma agrees_trans:
  assumes t: "take (length h) h1 = h" and a: "agrees h1 out pure"
  shows "agrees h out pure"
proof -
  obtain r h' where out: "out = (r, h')" by (cases out)
  have t1: "take (length h1) h' = h1" using a out by (simp add: agrees_def)
  have le: "length h \<le> length h1" using t by (metis length_take min.cobounded1 min.commute)
  have "take (length h) h' = take (length h) (take (length h1) h')" using le by (simp add: min_def)
  then have "take (length h) h' = h" using t t1 by simp
  then show ?thesis using a out le by (auto simp: agrees_def split: sum.splits)
qed

lemma take_two_updates:
  assumes "length h' = Suc (Suc n)" and "\<forall>a. a \<noteq> Suc n \<longrightarrow> a \<noteq> n \<longrightarrow> h' ! a = (h @ [x, y]) ! a"
    and "length h = n"
  shows "take n h' = h"
proof (rule nth_equalityI)
  show "length (take n h') = length h" using assms by simp
next
  fix i assume "i < length (take n h')"
  then have i: "i < n" using assms by simp
  then have "h' ! i = (h @ [x, y]) ! i" using assms(2) by simp
  then show "take n h' ! i = h ! i" using i assms(3) by (simp add: nth_append)
qed

lemma xgboost_forecast_h_agrees:
  assumes p: "p < length h"
  shows "agrees h (xgboost_forecast_h L p days h) (xgboost_forecast L (floats h p) days)"
proof (cases "xgb_fit L (floats h p)")
  case (Inl e)
  then show ?thesis
    by (simp add: agrees_def xgboost_forecast_h_def xgboost_forecast_def bind_def get_floats_def
        raise_def)
next
  case (Inr model)
  let ?ps = "floats h p"
  let ?pr = "length h"
  let ?cp = "Suc (length h)"
  let ?h2 = "h @ [Floats [], Floats ?ps]"
  have unfold: "xgboost_forecast_h L p days h =
      bind (xgb_loop_h L model (nat days) ?cp ?pr) (\<lambda>_. anchor_h p ?pr) ?h2"
    using Inr by (simp add: xgboost_forecast_h_def bind_def get_floats_def new_list_def)
  obtain r h3 where loop: "xgb_loop_h L model (nat days) ?cp ?pr ?h2 = (r, h3)"
    by (cases "xgb_loop_h L model (nat days) ?cp ?pr ?h2")
  have spec: "length h3 = length ?h2 \<and> (\<forall>a. a \<noteq> ?cp \<longrightarrow> a \<noteq> ?pr \<longrightarrow> h3 ! a = ?h2 ! a) \<and>
     (case r of
        Inl e \<Rightarrow> xgb_loop L model (nat days) ?ps [] = Inl e
      | Inr u \<Rightarrow> xgb_loop L model (nat days) ?ps [] = Inr (floats h3 ?pr))"
    using xgb_loop_h_spec [of ?cp ?h2 ?pr ?ps "[]" L model "nat days"] loop
    by (simp add: nth_append)
  have t3: "take (length h) h3 = h"
    using spec by (intro take_two_updates [of h3 "length h" h "Floats []" "Floats ?ps"]) simp_all
  show ?thesis
  proof (cases r)
    case (Inl e)
    with spec loop unfold Inr t3 show ?thesis
      by (simp add: agrees_def xgboost_forecast_def bind_def)
  next
    case u: (Inr u)
    have pure: "xgboost_forecast L ?ps days = anchor (floats h3 p) (floats h3 ?pr)"
      using spec u Inr floats_old [OF t3 p] by (simp add: xgboost_forecast_def)
    have "agrees h3 (anchor_h p ?pr h3) (anchor (floats h3 p) (floats h3 ?pr))"
      by (rule anchor_h_agrees)
    then have "agrees h (anchor_h p ?pr h3) (xgboost_forecast L ?ps days)"
      unfolding pure by (rule agrees_trans [OF t3])
    then show ?thesis using unfold loop u by (simp add: bind_def)
  qed
qed

lemma prophet_forecast_h_agrees:
  assumes p: "p < length h"
  shows "agrees h (prophet_forecast_h L p days h) (prophet_forecast L (floats h p) days)"
proof (cases "prophet_predict L (floats h p) days")
  case (Inl e)
  then show ?thesis
    by (simp add: agrees_def prophet_forecast_h_def prophet_forecast_def bind_def get_floats_def
        raise_def)
next
  case (Inr preds)
  let ?h1 = "h @ [Floats preds]"
  have t: "take (length h) ?h1 = h" by simp
  have "agrees ?h1 (anchor_h p (length h) ?h1) (anchor (floats ?h1 p) (floats ?h1 (length h)))"
    by (rule anchor_h_agrees)
  then have "agrees h (anchor_h p (length h) ?h1) (anchor (floats h p) preds)"
    using p agrees_trans [OF t] by simp
  then show ?thesis
    using Inr by (simp add: prophet_forecast_h_def prophet_forecast_def bind_def get_floats_def
        new_list_def)
qed

lemma take_one_update:
  assumes "length h' = Suc n" and "\<forall>a. a \<noteq> n \<longrightarrow> h' ! a = (h @ [x]) ! a" and "length h = n"
  shows "take n h' = h"
proof (rule nth_equalityI)
  show "length (take n h') = length h" using assms by simp
next
  fix i assume "i < length (take n h')"
  then have i: "i < n" using assms by simp
  then have "h' ! i = (h @ [x]) ! i" using assms(2) by simp
  then show "take n h' ! i = h ! i" using i assms(3) by (simp add: nth_append)
qed

lemma lstm_forecast_h_agrees:
  assumes p: "p < length h"
  shows "agrees h (lstm_forecast_h L p days h) (lstm_forecast L (floats h p) days)"
proof (cases "lstm_fit L (floats h p)")
  case (Inl e)
  then show ?thesis
    by (simp add: agrees_def lstm_forecast_h_def lstm_forecast_def bind_def get_floats_def
        raise_def)
next
  case (Inr model)
  let ?ps = "floats h p"
  let ?pr = "length h"
  let ?h1 = "h @ [Floats []]"
  let ?rest = "\<lambda>_. bind (get_floats ?pr) (\<lambda>qs.
           bind (new_list (map (inverse_transform L model) qs)) (\<lambda>predictions.
             anchor_h p predictions))"
  have unfold: "lstm_forecast_h L p days h =
      bind (lstm_loop_h L model (nat days) (lstm_window L ?ps) ?pr) ?rest ?h1"
    using Inr by (simp add: lstm_forecast_h_def bind_def get_floats_def new_list_def)
  obtain r h2 where loop: "lstm_loop_h L model (nat days) (lstm_window L ?ps) ?pr ?h1 = (r, h2)"
    by (cases "lstm_loop_h L model (nat days) (lstm_window L ?ps) ?pr ?h1")
  have spec: "length h2 = length ?h1 \<and> (\<forall>a. a \<noteq> ?pr \<longrightarrow> h2 ! a = ?h1 ! a) \<and>
     (case r of
        Inl e \<Rightarrow> lstm_loop L model (nat days) (lstm_window L ?ps) [] = Inl e
      | Inr u \<Rightarrow> lstm_loop L model (nat days) (lstm_window L ?ps) [] = Inr (floats h2 ?pr))"
    using lstm_loop_h_spec [of ?pr ?h1 "[]" L model "nat days" "lstm_window L ?ps"] loop
    by simp
  have t2: "take (length h) h2 = h"
    using spec by (intro take_one_update [of h2 "length h" h "Floats []"]) simp_all
  show ?thesis
  proof (cases r)
    case (Inl e)
    with spec loop unfold Inr t2 show ?thesis
      by (simp add: agrees_def lstm_forecast_def bind_def)
  next
    case u: (Inr u)
    let ?qs = "map (inverse_transform L model) (floats h2 ?pr)"
    let ?h3 = "h2 @ [Floats ?qs]"
    have t3: "take (length h) ?h3 = h" using t2 spec by simp
    have p3: "p < length h2" using p spec by simp
    have pure: "lstm_forecast L ?ps days = anchor (floats ?h3 p) (floats ?h3 (length h2))"
      using spec u Inr floats_old [OF t2 p] p3 by (simp add: lstm_forecast_def)
    have "agrees ?h3 (anchor_h p (length h2) ?h3) (anchor (floats ?h3 p) (floats ?h3 (length h2)))"
      by (rule anchor_h_agrees)
    then have "agrees h (anchor_h p (length h2) ?h3) (lstm_forecast L ?ps days)"
      unfolding pure by (rule agrees_trans [OF t3])
    then show ?thesis
      using unfold loop u by (simp add: bind_def get_floats_def new_list_def)
  qed
qed

lemma refs_update_other [simp]: "a \<noteq> b \<Longrightarrow> refs (h[b := v]) a = refs h a"
  by (simp add: refs_def)

lemma refs_append_old [simp]: "a < length h \<Longrightarrow> refs (h @ hs) a = refs h a"
  by (simp add: refs_def nth_append)

lemma ensemble_loop_h_spec:
  assumes "en < length h" "h ! en = Floats es" "pl \<noteq> en" "w \<noteq> en" "en \<notin> set (refs h pl)"
  shows "case ensemble_loop_h pl w day k en h of (r, h') \<Rightarrow>
     length h' = length h \<and> (\<forall>a. a \<noteq> en \<longrightarrow> h' ! a = h ! a) \<and>
     (case r of
        Inl e \<Rightarrow> ensemble_loop (map (floats h) (refs h pl)) (floats h w) day k = Inl e
      | Inr u \<Rightarrow> (\<exists>vs. ensemble_loop (map (floats h) (refs h pl)) (floats h w) day k = Inr vs \<and>
                     h' ! en = Floats (es @ vs)))"
  using assms
proof (induction k arbitrary: h es day)
  case 0
  then show ?case by (simp add: ret_def)
next
  case (Suc k)
  let ?ms = "map (floats h) (refs h pl)"
  let ?ws = "floats h w"
  show ?case
  proof (cases "day_pred ?ms ?ws day")
    case (Inl e)
    then show ?thesis
      by (simp add: bind_def get_refs_def get_members_def get_floats_def raise_def)
  next
    case (Inr v)
    let ?h1 = "h[en := Floats (es @ [v])]"
    have step: "ensemble_loop_h pl w day (Suc k) en h = ensemble_loop_h pl w (Suc day) k en ?h1"
      using Inr Suc.prems
      by (simp add: bind_def get_refs_def get_members_def get_floats_def append_float_def
          floats_def)
    have "\<forall>x\<in>set (refs h pl). floats ?h1 x = floats h x"
    proof
      fix x assume "x \<in> set (refs h pl)"
      with Suc.prems have "x \<noteq> en" by blast
      then show "floats ?h1 x = floats h x" by simp
    qed
    then have same: "map (floats ?h1) (refs ?h1 pl) = ?ms" "floats ?h1 w = ?ws"
      using Suc.prems by simp_all
    have "case ensemble_loop_h pl w (Suc day) k en ?h1 of (r, h') \<Rightarrow>
       length h' = length ?h1 \<and> (\<forall>a. a \<noteq> en \<longrightarrow> h' ! a = ?h1 ! a) \<and>
       (case r of
          Inl e \<Rightarrow> ensemble_loop (map (floats ?h1) (refs ?h1 pl)) (floats ?h1 w) (Suc day) k = Inl e
        | Inr u \<Rightarrow> (\<exists>vs. ensemble_loop (map (floats ?h1) (refs ?h1 pl)) (floats ?h1 w) (Suc day) k = Inr vs \<and>
                     h' ! en = Floats ((es @ [v]) @ vs)))"
      using Suc.prems by (intro Suc.IH) simp_all
    then show ?thesis
      unfolding step same using Inr by (auto split: prod.splits sum.splits)
  qed
qed

lemma try_member_inv:
  assumes inv: "ens_inv h0 h acc" and m: "agrees h (member h) pure"
  shows "\<exists>h'. try_member member weight (length h0) (Suc (length h0)) h = (Inr (), h') \<and>
     ens_inv h0 h' (add_member pure weight acc)"
proof -
  let ?pl = "length h0"
  let ?w = "Suc (length h0)"
  from inv obtain rs ws where
    t0: "take (length h0) h = h0" and len: "Suc (Suc (length h0)) \<le> length h"
    and pl: "h ! ?pl = Refs rs" and w: "h ! ?w = Floats ws"
    and rs: "\<forall>r\<in>set rs. ?w < r \<and> r < length h"
    and acc: "acc = (map (floats h) rs, ws)"
    by (auto simp: ens_inv_def)
  from m obtain r h1 where
    run: "member h = (r, h1)" and t1: "take (length h) h1 = h" and le1: "length h \<le> length h1"
    and err: "\<And>e. r = Inl e \<Longrightarrow> pure = Inl e"
    and val: "\<And>a. r = Inr a \<Longrightarrow> length h \<le> a \<and> a < length h1 \<and> pure = Inr (floats h1 a)"
    by (rule agreesE) blast
  have old: "\<And>a. a < length h \<Longrightarrow> h1 ! a = h ! a" using t1 by (metis nth_take)
  have t01: "take (length h0) h1 = h0"
  proof -
    have "take (length h0) h1 = take (length h0) (take (length h) h1)"
      using len by (simp add: min_def)
    then show ?thesis using t0 t1 by simp
  qed
  have keep: "map (floats h1) rs = map (floats h) rs"
    using rs floats_old [OF t1] by simp
  show ?thesis
  proof (cases r)
    case (Inl e)
    have "try_member member weight ?pl ?w h = (Inr (), h1)"
      using run Inl by (simp add: try_member_def catch_def bind_def ret_def)
    moreover have "ens_inv h0 h1 (add_member pure weight acc)"
      using err [OF Inl] t01 len le1 old [of ?pl] old [of ?w] pl w rs acc keep
      by (auto simp: ens_inv_def add_member_def)
    ultimately show ?thesis by blast
  next
    case (Inr a)
    from val [OF Inr] have a: "length h \<le> a" "a < length h1" "pure = Inr (floats h1 a)"
      by simp_all
    let ?h2 = "h1[?pl := Refs (rs @ [a]), ?w := Floats (ws @ [weight])]"
    have pl1: "refs h1 ?pl = rs" and w1: "floats h1 ?w = ws"
      using old [of ?pl] old [of ?w] pl w len le1 by (simp_all add: refs_def floats_def)
    have "try_member member weight ?pl ?w h = (Inr (), ?h2)"
      using run Inr pl1 w1
      by (simp add: try_member_def catch_def bind_def append_ref_def append_float_def)
    moreover have "ens_inv h0 ?h2 (add_member pure weight acc)"
    proof -
      have "take (length h0) ?h2 = h0" using t01 by simp
      moreover have "Suc (Suc (length h0)) \<le> length ?h2" using len le1 by simp
      moreover have "?h2 ! ?pl = Refs (rs @ [a])" using len le1 by simp
      moreover have "?h2 ! ?w = Floats (ws @ [weight])" using len le1 by simp
      moreover have "\<forall>r\<in>set (rs @ [a]). ?w < r \<and> r < length ?h2"
        using rs a len le1 by auto
      moreover have "map (floats ?h2) (rs @ [a]) = map (floats h) rs @ [floats h1 a]"
      proof -
        have "\<forall>r\<in>set (rs @ [a]). floats ?h2 r = floats h1 r" using rs a len by auto
        then have "map (floats ?h2) (rs @ [a]) = map (floats h1) (rs @ [a])" by simp
        then show ?thesis using keep by simp
      qed
      ultimately show ?thesis
        unfolding ens_inv_def add_member_def acc a(3) by auto
    qed
    ultimately show ?thesis by blast
  qed
qed

lemma arima_forecast_h_agrees:
  "agrees h (arima_forecast_h L p days h) (arima_predict L (floats h p) days)"
  by (simp add: agrees_def arima_forecast_h_def bind_def get_floats_def raise_def new_list_def
      split: sum.splits)

lemma ens_inv_old:
  assumes "ens_inv h0 h acc" and "p < length h0"
  shows "p < length h" and "floats h p = floats h0 p"
proof -
  from assms(1) have t: "take (length h0) h = h0" and l: "Suc (Suc (length h0)) \<le> length h"
    by (simp_all add: ens_inv_def)
  show "p < length h" using l assms(2) by simp
  show "floats h p = floats h0 p" using t assms(2) by (rule floats_old)
qed

lemma ensemble_forecast_h_agrees:
  assumes p: "p < length h"
  shows "agrees h (ensemble_forecast_h L p days h) (ensemble_forecast L (floats h p) days)"
proof -
  let ?pl = "length h"
  let ?w = "Suc (length h)"
  let ?hA = "h @ [Refs [], Floats []]"
  let ?ps = "floats h p"
  define acc1 where "acc1 = add_member (prophet_forecast L ?ps days) (4 / 10) ([], [])"
  define acc2 where "acc2 = add_member (arima_predict L ?ps days) (35 / 100) acc1"
  define acc3 where "acc3 = add_member (simple_fallback ?ps days) (25 / 100) acc2"
  have invA: "ens_inv h ?hA ([], [])" by (simp add: ens_inv_def nth_append)
  have "agrees ?hA (prophet_forecast_h L p days ?hA) (prophet_forecast L ?ps days)"
    using prophet_forecast_h_agrees [of p ?hA L days] p by simp
  from try_member_inv [where member = "prophet_forecast_h L p days" and weight = "4 / 10", OF invA this] obtain h1 where
    r1: "try_member (prophet_forecast_h L p days) (4 / 10) ?pl ?w ?hA = (Inr (), h1)"
    and inv1: "ens_inv h h1 acc1"
    unfolding acc1_def by blast
  have "agrees h1 (arima_forecast_h L p days h1) (arima_predict L ?ps days)"
    using arima_forecast_h_agrees [of h1 L p days] ens_inv_old [OF inv1 p] by simp
  from try_member_inv [where member = "arima_forecast_h L p days" and weight = "35 / 100", OF inv1 this] obtain h2 where
    r2: "try_member (arima_forecast_h L p days) (35 / 100) ?pl ?w h1 = (Inr (), h2)"
    and inv2: "ens_inv h h2 acc2"
    unfolding acc2_def by blast
  have "agrees h2 (simple_fallback_h p days h2) (simple_fallback ?ps days)"
    using simple_fallback_h_agrees [of h2 p days] ens_inv_old [OF inv2 p] by simp
  from try_member_inv [where member = "simple_fallback_h p days" and weight = "25 / 100", OF inv2 this] obtain h3 where
    r3: "try_member (simple_fallback_h p days) (25 / 100) ?pl ?w h2 = (Inr (), h3)"
    and inv3: "ens_inv h h3 acc3"
    unfolding acc3_def by blast
  from inv3 obtain rs ws where
    t3: "take (length h) h3 = h" and len3: "Suc (Suc (length h)) \<le> length h3"
    and pl3: "h3 ! ?pl = Refs rs" and w3: "h3 ! ?w = Floats ws"
    and rs3: "\<forall>r\<in>set rs. ?w < r \<and> r < length h3"
    and acc3: "acc3 = (map (floats h3) rs, ws)"
    by (auto simp: ens_inv_def)
  have refs3: "refs h3 ?pl = rs" and floats3: "floats h3 ?w = ws"
    using pl3 w3 len3 by (simp_all add: refs_def floats_def)
  have p3: "p < length h3" "floats h3 p = ?ps" using ens_inv_old [OF inv3 p] by simp_all
  have pure: "ensemble_forecast L ?ps days =
     (if fst acc3 = [] then
        (if ?ps = [] then Inl IndexError else Inr (replicate (nat days) (last ?ps)))
      else
        let total_weight = sum_list (take (length (fst acc3)) (snd acc3)) in
        if total_weight = 0 then Inl ZeroDivisionError
        else
          let weights = map (\<lambda>w. w / total_weight) (take (length (fst acc3)) (snd acc3)) in
          case ensemble_loop (fst acc3) weights 0 (nat days) of
            Inl e \<Rightarrow> Inl e
          | Inr ensemble \<Rightarrow> anchor ?ps ensemble)"
    by (simp add: ensemble_forecast_def acc1_def acc2_def acc3_def Let_def)
  show ?thesis
  proof (cases "rs = []")
    case True
    have "ensemble_forecast_h L p days h =
        (if ?ps = [] then (Inl IndexError, h3)
         else (Inr (length h3), h3 @ [Floats (replicate (nat days) (last ?ps))]))"
      using r1 r2 r3 refs3 True p3
      by (simp add: ensemble_forecast_h_def bind_def new_ref_list_def new_list_def get_refs_def
          get_floats_def raise_def)
    then show ?thesis
      unfolding pure using True acc3 t3 len3 by (simp add: agrees_def)
  next
    case False
    let ?tw = "sum_list (take (length rs) ws)"
    show ?thesis
    proof (cases "?tw = 0")
      case True
      have "ensemble_forecast_h L p days h = (Inl ZeroDivisionError, h3)"
        using r1 r2 r3 refs3 floats3 False True
        by (simp add: ensemble_forecast_h_def bind_def new_ref_list_def new_list_def get_refs_def
            get_floats_def raise_def)
      then show ?thesis
        unfolding pure using False True acc3 t3 by (simp add: agrees_def)
    next
      case nz: False
      let ?ws' = "map (\<lambda>w. w / ?tw) (take (length rs) ws)"
      let ?h4 = "h3 @ [Floats ?ws', Floats []]"
      let ?en = "Suc (length h3)"
      have run: "ensemble_forecast_h L p days h =
          bind (ensemble_loop_h ?pl (length h3) 0 (nat days) ?en) (\<lambda>_. anchor_h p ?en) ?h4"
        using r1 r2 r3 refs3 floats3 False nz
        by (simp add: ensemble_forecast_h_def bind_def new_ref_list_def new_list_def get_refs_def
            get_floats_def Let_def split: prod.splits sum.splits)
      have refs4: "refs ?h4 ?pl = rs" using refs3 len3 by simp
      have members4: "map (floats ?h4) rs = map (floats h3) rs" using rs3 by simp
      have weights4: "floats ?h4 (length h3) = ?ws'" by (simp add: floats_def nth_append)
      obtain r h5 where loop: "ensemble_loop_h ?pl (length h3) 0 (nat days) ?en ?h4 = (r, h5)"
        by (cases "ensemble_loop_h ?pl (length h3) 0 (nat days) ?en ?h4")
      have en_fresh: "?en \<notin> set (refs ?h4 ?pl)" unfolding refs4 using rs3 by auto
      have spec: "length h5 = length ?h4 \<and> (\<forall>a. a \<noteq> ?en \<longrightarrow> h5 ! a = ?h4 ! a) \<and>
         (case r of
            Inl e \<Rightarrow> ensemble_loop (map (floats h3) rs) ?ws' 0 (nat days) = Inl e
          | Inr u \<Rightarrow> (\<exists>vs. ensemble_loop (map (floats h3) rs) ?ws' 0 (nat days) = Inr vs \<and>
                        h5 ! ?en = Floats ([] @ vs)))"
        using ensemble_loop_h_spec [of ?en ?h4 "[]" ?pl "length h3" 0 "nat days"] loop en_fresh len3
        unfolding refs4 members4 weights4 by (simp add: nth_append)
      have t35: "take (length h3) h5 = h3"
      proof (rule nth_equalityI)
        show "length (take (length h3) h5) = length h3" using spec by simp
      next
        fix i assume "i < length (take (length h3) h5)"
        then have i: "i < length h3" by simp
        then have "h5 ! i = ?h4 ! i" using spec by simp
        then show "take (length h3) h5 ! i = h3 ! i" using i by (simp add: nth_append)
      qed
      have t5: "take (length h) h5 = h"
      proof -
        have "take (length h) h5 = take (length h) (take (length h3) h5)"
          using len3 by (simp add: min_def)
        then show ?thesis using t35 t3 by simp
      qed
      show ?thesis
      proof (cases r)
        case (Inl e)
        then show ?thesis
          unfolding pure run using loop spec False nz acc3 t5
          by (simp add: agrees_def bind_def)
      next
        case u: (Inr u)
        with spec obtain vs where
          vs: "ensemble_loop (map (floats h3) rs) ?ws' 0 (nat days) = Inr vs"
          and en5: "h5 ! ?en = Floats vs" by auto
        have f5: "floats h5 ?en = vs" using en5 spec by (simp add: floats_def)
        have p5: "floats h5 p = ?ps" using floats_old [OF t5 p] .
        have "agrees h5 (anchor_h p ?en h5) (anchor (floats h5 p) (floats h5 ?en))"
          by (rule anchor_h_agrees)
        then have "agrees h (anchor_h p ?en h5) (anchor ?ps vs)"
          using agrees_trans [OF t5] f5 p5 by simp
        then show ?thesis
          unfolding pure run using loop u vs False nz acc3
          by (simp add: bind_def)
      qed
    qed
  qed
qed

lemma take_length_le: "take (length h) h1 = h \<Longrightarrow> length h \<le> length h1"
  by (metis length_take min.cobounded1 min.commute)

lemma tier_agrees:
  assumes ext: "take (length h) h1 = h" and sp: "sp < length h"
    and tier: "\<And>h'. sp < length h' \<Longrightarrow> agrees h' (T h') (P (floats h' sp))"
  shows "agrees h (bind T (descale_if_h sf) h1)
           (case P (floats h sp) of Inl e \<Rightarrow> Inl e | Inr f \<Rightarrow> Inr (descale_if sf f))"
proof -
  have sp1: "sp < length h1" using take_length_le [OF ext] sp by simp
  have f1: "floats h1 sp = floats h sp" using ext sp by (rule floats_old)
  from tier [OF sp1] obtain r h2 where
    run: "T h1 = (r, h2)" and t2: "take (length h1) h2 = h1"
    and err: "\<And>e. r = Inl e \<Longrightarrow> P (floats h sp) = Inl e"
    and val: "\<And>a. r = Inr a \<Longrightarrow> length h1 \<le> a \<and> a < length h2 \<and> P (floats h sp) = Inr (floats h2 a)"
    unfolding f1 by (rule agreesE) blast
  have "agrees h1 (bind T (descale_if_h sf) h1)
           (case P (floats h sp) of Inl e \<Rightarrow> Inl e | Inr f \<Rightarrow> Inr (descale_if sf f))"
  proof (cases r)
    case (Inl e)
    with run t2 err [OF Inl] show ?thesis by (simp add: agrees_def bind_def)
  next
    case (Inr a)
    from val [OF Inr] have a: "length h1 \<le> a" "a < length h2" "P (floats h sp) = Inr (floats h2 a)"
      by simp_all
    show ?thesis
      using run Inr t2 a
      by (simp add: agrees_def bind_def descale_if_h_def descale_if_def descale_prices_h_def
          get_floats_def new_list_def ret_def)
  qed
  then show ?thesis by (rule agrees_trans [OF ext])
qed

lemma catch_agrees:
  assumes m: "agrees h (m h1) pure"
    and g: "\<And>e h2. take (length h) h2 = h \<Longrightarrow> agrees h (g e h2) pure2"
  shows "agrees h (catch m g h1) (case pure of Inl e \<Rightarrow> pure2 | Inr f \<Rightarrow> Inr f)"
proof -
  from m obtain r h2 where
    run: "m h1 = (r, h2)" and t2: "take (length h) h2 = h"
    and err: "\<And>e. r = Inl e \<Longrightarrow> pure = Inl e"
    and val: "\<And>a. r = Inr a \<Longrightarrow> length h \<le> a \<and> a < length h2 \<and> pure = Inr (floats h2 a)"
    by (rule agreesE) blast
  show ?thesis
  proof (cases r)
    case (Inl e)
    with run err [OF Inl] g [OF t2, of e] show ?thesis by (simp add: catch_def)
  next
    case (Inr a)
    with run t2 val [OF Inr] show ?thesis by (simp add: catch_def agrees_def)
  qed
qed

lemma generate_forecast_h_agrees:
  assumes p: "p < length h"
  shows "agrees h (generate_forecast_h L p days h) (generate_forecast L (floats h p) days)"
proof -
  let ?ps = "floats h p"
  consider (empty) "?ps = []" | (short) "?ps \<noteq> []" "length ?ps < 30"
    | (long) "?ps \<noteq> []" "\<not> length ?ps < 30" by blast
  then show ?thesis
  proof cases
    case empty
    then show ?thesis
      by (simp add: agrees_def generate_forecast_h_def generate_forecast_def bind_def
          get_floats_def new_list_def)
  next
    case short
    then show ?thesis
      using simple_fallback_h_agrees [of h p days]
      by (simp add: generate_forecast_h_def generate_forecast_def bind_def get_floats_def)
  next
    case long
    define sf where "sf = calculate_scale_factor ?ps"
    define sp where "sp = (if sf > 1 then length h else p)"
    define hS where "hS = (if sf > 1 then h @ [Floats (scale_prices ?ps sf)] else h)"
    define qs where "qs = (if sf > 1 then scale_prices ?ps sf else ?ps)"
    let ?chain = "catch (bind (xgboost_forecast_h L sp days) (descale_if_h sf))
               (\<lambda>e. catch (bind (ensemble_forecast_h L sp days) (descale_if_h sf))
                 (\<lambda>e. catch (bind (lstm_forecast_h L sp days) (descale_if_h sf))
                   (\<lambda>e. bind (simple_fallback_h sp days) (descale_if_h sf))))"
    have run: "generate_forecast_h L p days h = ?chain hS"
      using long
      by (simp add: generate_forecast_h_def bind_def get_floats_def sf_def [symmetric] sp_def
          hS_def scale_prices_h_def new_list_def ret_def Let_def)
    have ext: "take (length h) hS = h" by (simp add: hS_def)
    have spS: "sp < length hS" using p by (simp add: sp_def hS_def)
    have fS: "floats hS sp = qs" using p by (simp add: sp_def hS_def qs_def)
    note step = tier_agrees [where sf = sf and sp = sp and h = hS, OF _ spS, unfolded fS]
    have x: "\<And>h1. take (length hS) h1 = hS \<Longrightarrow>
        agrees hS (bind (xgboost_forecast_h L sp days) (descale_if_h sf) h1)
          (case xgboost_forecast L qs days of Inl e \<Rightarrow> Inl e | Inr f \<Rightarrow> Inr (descale_if sf f))"
      by (rule step [where P = "\<lambda>xs. xgboost_forecast L xs days"])
        (simp_all add: xgboost_forecast_h_agrees)
    have en: "\<And>h1. take (length hS) h1 = hS \<Longrightarrow>
        agrees hS (bind (ensemble_forecast_h L sp days) (descale_if_h sf) h1)
          (case ensemble_forecast L qs days of Inl e \<Rightarrow> Inl e | Inr f \<Rightarrow> Inr (descale_if sf f))"
      by (rule step [where P = "\<lambda>xs. ensemble_forecast L xs days"])
        (simp_all add: ensemble_forecast_h_agrees)
    have ls: "\<And>h1. take (length hS) h1 = hS \<Longrightarrow>
        agrees hS (bind (lstm_forecast_h L sp days) (descale_if_h sf) h1)
          (case lstm_forecast L qs days of Inl e \<Rightarrow> Inl e | Inr f \<Rightarrow> Inr (descale_if sf f))"
      by (rule step [where P = "\<lambda>xs. lstm_forecast L xs days"])
        (simp_all add: lstm_forecast_h_agrees)
    have fb: "\<And>h1. take (length hS) h1 = hS \<Longrightarrow>
        agrees hS (bind (simple_fallback_h sp days) (descale_if_h sf) h1)
          (case simple_fallback qs days of Inl e \<Rightarrow> Inl e | Inr f \<Rightarrow> Inr (descale_if sf f))"
      by (rule step [where P = "\<lambda>xs. simple_fallback xs days"])
        (simp_all add: simple_fallback_h_agrees)
    have ext_refl: "take (length hS) hS = hS" by simp
    have c3: "\<And>e h1. take (length hS) h1 = hS \<Longrightarrow>
        agrees hS (catch (bind (lstm_forecast_h L sp days) (descale_if_h sf))
                   (\<lambda>e. bind (simple_fallback_h sp days) (descale_if_h sf)) h1)
          (case (case lstm_forecast L qs days of Inl e \<Rightarrow> Inl e | Inr f \<Rightarrow> Inr (descale_if sf f)) of
             Inl e \<Rightarrow> (case simple_fallback qs days of Inl e \<Rightarrow> Inl e | Inr f \<Rightarrow> Inr (descale_if sf f))
           | Inr f \<Rightarrow> Inr f)"
      by (rule catch_agrees) (rule ls, assumption, rule fb, assumption)
    have c2: "\<And>e h1. take (length hS) h1 = hS \<Longrightarrow>
        agrees hS (catch (bind (ensemble_forecast_h L sp days) (descale_if_h sf))
                 (\<lambda>e. catch (bind (lstm_forecast_h L sp days) (descale_if_h sf))
                   (\<lambda>e. bind (simple_fallback_h sp days) (descale_if_h sf))) h1)
          (case (case ensemble_forecast L qs days of Inl e \<Rightarrow> Inl e | Inr f \<Rightarrow> Inr (descale_if sf f)) of
             Inl e \<Rightarrow>
               (case (case lstm_forecast L qs days of Inl e \<Rightarrow> Inl e | Inr f \<Rightarrow> Inr (descale_if sf f)) of
                  Inl e \<Rightarrow> (case simple_fallback qs days of Inl e \<Rightarrow> Inl e | Inr f \<Rightarrow> Inr (descale_if sf f))
                | Inr f \<Rightarrow> Inr f)
           | Inr f \<Rightarrow> Inr f)"
      by (rule catch_agrees) (rule en, assumption, rule c3, assumption)
    have c1: "agrees hS (?chain hS)
          (case (case xgboost_forecast L qs days of Inl e \<Rightarrow> Inl e | Inr f \<Rightarrow> Inr (descale_if sf f)) of
             Inl e \<Rightarrow>
               (case (case ensemble_forecast L qs days of Inl e \<Rightarrow> Inl e | Inr f \<Rightarrow> Inr (descale_if sf f)) of
                  Inl e \<Rightarrow>
                    (case (case lstm_forecast L qs days of Inl e \<Rightarrow> Inl e | Inr f \<Rightarrow> Inr (descale_if sf f)) of
                       Inl e \<Rightarrow> (case simple_fallback qs days of Inl e \<Rightarrow> Inl e | Inr f \<Rightarrow> Inr (descale_if sf f))
                     | Inr f \<Rightarrow> Inr f)
                | Inr f \<Rightarrow> Inr f)
           | Inr f \<Rightarrow> Inr f)"
      by (rule catch_agrees) (rule x, rule ext_refl, rule c2, assumption)
    have pure: "generate_forecast L ?ps days =
          (case (case xgboost_forecast L qs days of Inl e \<Rightarrow> Inl e | Inr f \<Rightarrow> Inr (descale_if sf f)) of
             Inl e \<Rightarrow>
               (case (case ensemble_forecast L qs days of Inl e \<Rightarrow> Inl e | Inr f \<Rightarrow> Inr (descale_if sf f)) of
                  Inl e \<Rightarrow>
                    (case (case lstm_forecast L qs days of Inl e \<Rightarrow> Inl e | Inr f \<Rightarrow> Inr (descale_if sf f)) of
                       Inl e \<Rightarrow> (case simple_fallback qs days of Inl e \<Rightarrow> Inl e | Inr f \<Rightarrow> Inr (descale_if sf f))
                     | Inr f \<Rightarrow> Inr f)
                | Inr f \<Rightarrow> Inr f)
           | Inr f \<Rightarrow> Inr f)"
      unfolding generate_forecast_long [OF long] Let_def sf_def [symmetric] qs_def [symmetric]
      by (simp split: sum.splits)
    show ?thesis
      unfolding run pure using c1 by (rule agrees_trans [OF ext])
  qed
qed

text \<open>
  The store does record a mutation: \<open>append\<close> through any name of a list changes it.
\<close>

lemma append_float_mutates:
  assumes "p < length h" and "h ! p = Floats xs"
  shows "floats (snd (append_float p x h)) p = xs @ [x]"
  using assms by (simp add: append_float_def floats_def)

text \<open>
  C10: a call of \<open>generate_forecast\<close> on the list at address \<open>p\<close> leaves every object of
  the caller's store as it was, for every \<open>days\<close> and every behaviour of the libraries,
  whether it returns or raises: in particular the list at \<open>p\<close> holds its original
  elements in their order. The call computes what the function on values computes, in a
  new list object.
\<close>

theorem generate_forecast_keeps_input:
  assumes "p < length h"
  shows "take (length h) (snd (generate_forecast_h L p days h)) = h \<and>
    floats (snd (generate_forecast_h L p days h)) p = floats h p \<and>
    agrees h (generate_forecast_h L p days h) (generate_forecast L (floats h p) days)"
proof -
  have a: "agrees h (generate_forecast_h L p days h) (generate_forecast L (floats h p) days)"
    using assms by (rule generate_forecast_h_agrees)
  then have t: "take (length h) (snd (generate_forecast_h L p days h)) = h"
    by (simp add: agrees_def split: prod.splits)
  from floats_old [OF t assms] a t show ?thesis by simp
qed

theorem generate_forecast_keeps_input_witness:
  "(0::nat) < length [Floats (replicate 30 2)] \<and>
   floats (snd (generate_forecast_h flat_libs 0 7 [Floats (replicate 30 2)])) 0 = replicate 30 2 \<and>
   floats (snd (generate_forecast_h no_libs 0 3 [Floats [100, 101]])) 0 = [100, 101]"
  using generate_forecast_keeps_input [of 0 "[Floats (replicate 30 2)]" flat_libs 7]
    generate_forecast_keeps_input [of 0 "[Floats [100, 101]]" no_libs 3]
  by (simp add: floats_def)

end
